theory Spec2Isabelle
  imports Main
begin

section \<open>Machine integers\<close>

text \<open>
  The source computes with \<open>int\<close> (32 bits, signed), \<open>size_t\<close> (64 bits, unsigned),
  \<open>int64_t\<close> and the template parameter \<open>value_idx\<close>, a signed integer type whose
  width \<open>w\<close> is a parameter of the model (32 where the library instantiates it with
  \<open>int\<close>). Values are mathematical integers; every conversion and every operation
  that can leave the range of its type is written with its wrap-around.
\<close>

definition to_signed :: "nat \<Rightarrow> int \<Rightarrow> int" where
  \<comment> \<open>conversion to a signed integer type of \<open>w\<close> bits (two's complement)\<close>
  "to_signed w x = signed_take_bit (w - 1) x"

definition to_size_t :: "int \<Rightarrow> nat" where
  \<comment> \<open>conversion of a signed value to \<open>size_t\<close>\<close>
  "to_size_t x = nat (x mod 2 ^ 64)"

definition size_t_of :: "nat \<Rightarrow> nat" where
  \<comment> \<open>the result of an operation on \<open>size_t\<close>\<close>
  "size_t_of x = nat (int x mod 2 ^ 64)"

definition c_div :: "int \<Rightarrow> int \<Rightarrow> int" where
  \<comment> \<open>the quotient of \<open>/\<close> on signed integers, rounded towards zero\<close>
  "c_div a b = sgn a * sgn b * (\<bar>a\<bar> div \<bar>b\<bar>)"

definition common_width :: "nat \<Rightarrow> nat" where
  \<comment> \<open>width of the common type of \<open>value_idx\<close> and \<open>int\<close> in a binary operation\<close>
  "common_width w = max w 32"

section \<open>Errors and device buffers\<close>

datatype error =
    InvalidConfiguration   \<comment> \<open>the \<open>ASSERT\<close> of \<open>core_distances\<close>\<close>
  | UnsupportedMetric      \<comment> \<open>the \<open>RAFT_EXPECTS\<close> on the metric\<close>
  | OutOfMemory            \<comment> \<open>a device allocation that cannot be satisfied\<close>
  | MemoryFault            \<comment> \<open>an access outside the buffer a pointer refers to\<close>
  | DivisionByZero
  | Terminated             \<comment> \<open>an exception thrown inside the OpenMP parallel region:
                               it cannot leave the region and the program ends\<close>

text \<open>
  A device array is a list; a call that raises returns \<open>Inl\<close> with the error and the
  contents of what it was writing at that moment, a call that returns gives \<open>Inr\<close>.
\<close>

type_synonym 's result = "(error \<times> 's) + 's"

definition read_at :: "'a list \<Rightarrow> int \<Rightarrow> error + 'a" where
  \<comment> \<open>\<open>buf[idx]\<close> for a signed index\<close>
  "read_at buf idx =
     (if 0 \<le> idx \<and> nat idx < length buf then Inr (buf ! nat idx) else Inl MemoryFault)"

definition write_range :: "'a list \<Rightarrow> nat \<Rightarrow> 'a list \<Rightarrow> error + 'a list" where
  \<comment> \<open>stores \<open>xs\<close> into \<open>buf[off]\<close>, \<open>buf[off + 1]\<close>, ...\<close>
  "write_range buf off xs =
     (if off + length xs \<le> length buf
      then Inr (take off buf @ xs @ drop (off + length xs) buf)
      else Inl MemoryFault)"

text \<open>
  \<open>thrust::transform(policy, first, first + count, out, op)\<close>: element \<open>i\<close> of the
  output is \<open>op\<close> of element \<open>i\<close> of the input range, for \<open>i\<close> from 0 to
  \<open>count - 1\<close>. The function \<open>g\<close> reads input element \<open>i\<close> and applies \<open>op\<close>.
  The elements are independent; the model visits them in index order.
\<close>

fun transform_range :: "nat \<Rightarrow> nat \<Rightarrow> (nat \<Rightarrow> error + 'b) \<Rightarrow> 'b list \<Rightarrow> 'b list result" where
  "transform_range i 0 g out = Inr out"
| "transform_range i (Suc c) g out =
     (case g i of
        Inl e \<Rightarrow> Inl (e, out)
      | Inr y \<Rightarrow>
          if i < length out then transform_range (Suc i) c g (out[i := y])
          else Inl (MemoryFault, out))"

definition thrust_transform :: "nat \<Rightarrow> (nat \<Rightarrow> error + 'b) \<Rightarrow> 'b list \<Rightarrow> 'b list result" where
  "thrust_transform count g out = transform_range 0 count g out"

definition counting_iterator :: "nat \<Rightarrow> nat \<Rightarrow> int" where
  \<comment> \<open>element \<open>i\<close> of \<open>thrust::make_counting_iterator<value_idx>(0)\<close>\<close>
  "counting_iterator w i = to_signed w (int i)"

section \<open>Core distances\<close>

text \<open>
  \<open>core_distances(knn_dists, min_samples, n_neighbors, n, out, stream)\<close>. The lambda
  reads \<open>knn_dists[row * n_neighbors + (min_samples - 1)]\<close>: \<open>min_samples - 1\<close> is
  computed in \<open>int\<close>, the product and the sum in the common type of \<open>value_idx\<close> and
  \<open>int\<close>. The unused local \<open>blocks\<close> is left out.
\<close>

definition core_distance_index :: "nat \<Rightarrow> int \<Rightarrow> int \<Rightarrow> int \<Rightarrow> int" where
  "core_distance_index w row n_neighbors min_samples =
     to_signed (common_width w)
       (to_signed (common_width w) (row * n_neighbors) + to_signed 32 (min_samples - 1))"

definition core_distances ::
  "nat \<Rightarrow> 'v list \<Rightarrow> int \<Rightarrow> int \<Rightarrow> nat \<Rightarrow> 'v list \<Rightarrow> 'v list result" where
  "core_distances w knn_dists min_samples n_neighbors n out =
     (if \<not> (n_neighbors \<ge> min_samples) then Inl (InvalidConfiguration, out)
      else thrust_transform n
             (\<lambda>i. read_at knn_dists
                     (core_distance_index w (counting_iterator w i) n_neighbors min_samples))
             out)"

section \<open>Metrics, sparse graphs and the state of a call\<close>

text \<open>
  Some enumerators of \<open>raft::distance::DistanceType\<close>; the code compares the metric
  with \<open>L2SqrtExpanded\<close> only.
\<close>

datatype DistanceType =
  L2Expanded | L2SqrtExpanded | CosineExpanded | L1 | L2Unexpanded | L2SqrtUnexpanded | InnerProduct

text \<open>\<open>raft::sparse::COO<value_t, value_idx>\<close>: three parallel arrays and their length.\<close>

record 'v COO =
  rows :: "int list"
  cols :: "int list"
  vals :: "'v list"
  nnz :: int

text \<open>
  The calls to the CUDA runtime in \<open>compute_knn_GF\<close>, one constructor per statement
  of the source, with the device index of the loop iteration where there is one.
\<close>

datatype cuda_call =
    GetDevice | GetDeviceCount
  | StageSetDevice int | StageMalloc1 int | StageMalloc2 int | StageMemcpy1 int | StageMemcpy2 int
  | RestoreDevice
  | SearchSetDevice int | GatherDists int | GatherIndices int | FreeX1 int | FreeX2 int
  | FinalSetDevice

text \<open>
  What a call can change: the three outputs of the caller (\<open>indptr\<close>, \<open>core_dists\<close>
  and the graph \<open>out\<close>), the diagnostics written to \<open>std::cerr\<close> (one entry per
  message of \<open>check\<close>, naming the call that failed) and the device the calling
  thread is bound to. The progress messages on \<open>std::cout\<close> and the timings are left
  out.
\<close>

record 'v state =
  indptr :: "int list"
  core_dists :: "'v list"
  out :: "'v COO"
  cerr :: "cuda_call list"
  device :: int

text \<open>
  The machine the call runs on: the width of \<open>value_idx\<close>, the number of devices,
  which runtime calls report an error, which allocation sizes (in elements) the device
  memory can satisfy, and the contents of freshly allocated memory. The source does not
  say what a \<open>cudaMemcpy\<close> that reports an error leaves in its destination: for the
  call \<open>c\<close>, position \<open>j\<close> of the destination range, holding \<open>old\<close> and meant to
  receive \<open>new\<close>, holds \<open>failed_copy_dists rt c j old new\<close> afterwards (likewise for
  the indices). Nor does it say which thread of the OpenMP team runs which iteration:
  \<open>caller_runs rt i\<close> says whether the calling thread runs iteration \<open>i\<close>.
\<close>

record 'v runtime =
  idx_bits :: nat
  device_count :: int
  cuda_fails :: "cuda_call \<Rightarrow> bool"
  can_alloc :: "nat \<Rightarrow> bool"
  junk :: 'v
  junk_idx :: int
  failed_copy_dists :: "cuda_call \<Rightarrow> nat \<Rightarrow> 'v \<Rightarrow> 'v \<Rightarrow> 'v"
  failed_copy_indices :: "cuda_call \<Rightarrow> nat \<Rightarrow> int \<Rightarrow> int \<Rightarrow> int"
  caller_runs :: "int \<Rightarrow> bool"

text \<open>A staged copy of a point array on a device: the pointer and what it refers to.\<close>

datatype 'x staged = NullPtr | Uninitialized | Holds 'x

text \<open>
  The functions the source calls and does not define (the search primitives and
  \<open>mutual_reachability_knn_l2\<close> of \<open>reachability_faiss.cuh\<close>, \<open>symmetrize\<close> and
  \<open>sorted_coo_to_csr\<close> of raft), with the arguments in the order of the source, are
  parameters: each returns what it stores through its output pointers. A search
  returns the indices (64 bits) and the distances it writes. \<open>value_max\<close> is
  \<open>std::numeric_limits<value_t>::max()\<close> and \<open>one_over alpha\<close> is
  \<open>(value_t)1.0 / alpha\<close>; the weights themselves stay abstract.
\<close>

record ('x, 'v) library =
  brute_force_knn ::
    "'x list \<Rightarrow> int list \<Rightarrow> nat \<Rightarrow> 'x \<Rightarrow> nat \<Rightarrow> int \<Rightarrow> bool \<Rightarrow> bool \<Rightarrow> DistanceType
       \<Rightarrow> int list \<times> 'v list"
  brute_force_knn_GF ::
    "'x staged list \<Rightarrow> 'x staged list \<Rightarrow> int list \<Rightarrow> nat \<Rightarrow> nat
       \<Rightarrow> 'x staged \<times> nat \<Rightarrow> 'x staged \<times> nat \<Rightarrow> nat \<Rightarrow> int \<Rightarrow> bool \<Rightarrow> bool \<Rightarrow> DistanceType
       \<Rightarrow> int list \<times> 'v list"
  mutual_reachability_knn_l2 ::
    "int list \<Rightarrow> 'v list \<Rightarrow> 'x \<Rightarrow> nat \<Rightarrow> nat \<Rightarrow> int \<Rightarrow> 'v list \<Rightarrow> 'v \<Rightarrow> int list \<times> 'v list"
  symmetrize :: "int list \<Rightarrow> int list \<Rightarrow> 'v list \<Rightarrow> nat \<Rightarrow> nat \<Rightarrow> nat \<Rightarrow> 'v COO \<Rightarrow> 'v COO"
  sorted_coo_to_csr :: "int list \<Rightarrow> int \<Rightarrow> int list \<Rightarrow> nat \<Rightarrow> int list"
  value_max :: 'v
  one_over :: "'v \<Rightarrow> 'v"

section \<open>The search on one device\<close>

definition narrow_index :: "nat \<Rightarrow> int list \<Rightarrow> nat \<Rightarrow> error + int" where
  \<comment> \<open>the lambda \<open>[](int64_t in) -> value_idx { return in; }\<close> on element \<open>i\<close>\<close>
  "narrow_index w int64_indices i =
     (case read_at int64_indices (int i) of Inl e \<Rightarrow> Inl e | Inr x \<Rightarrow> Inr (to_signed w x))"

definition narrow_indices :: "nat \<Rightarrow> int list \<Rightarrow> int list \<Rightarrow> int list result" where
  \<comment> \<open>\<open>thrust::transform\<close> over \<open>int64_indices.data()\<close> to
      \<open>int64_indices.data() + int64_indices.size()\<close>, writing \<open>inds\<close>\<close>
  "narrow_indices w int64_indices inds =
     thrust_transform (length int64_indices) (narrow_index w int64_indices) inds"

definition compute_knn ::
  "'v runtime \<Rightarrow> ('x, 'v) library \<Rightarrow> 'x \<Rightarrow> int list \<Rightarrow> 'v list \<Rightarrow> nat \<Rightarrow> nat \<Rightarrow> 'x \<Rightarrow> nat
     \<Rightarrow> int \<Rightarrow> DistanceType \<Rightarrow> (int list \<times> 'v list) result" where
  "compute_knn rt lib X inds dists m n search_items n_search_items k metric =
     (let inputs = [X];
          sizes = [to_signed 32 (int m)];
          count = size_t_of (to_size_t k * n_search_items)
      in if \<not> can_alloc rt count then Inl (OutOfMemory, (inds, dists))
         else
           let (res_I, res_D) =
                 brute_force_knn lib inputs sizes n search_items n_search_items k True True metric
           in case write_range (replicate count (junk_idx rt)) 0 res_I of
                Inl e \<Rightarrow> Inl (e, (inds, dists))
              | Inr int64_indices \<Rightarrow>
                  (case write_range dists 0 res_D of
                     Inl e \<Rightarrow> Inl (e, (inds, dists))
                   | Inr dists' \<Rightarrow>
                       (case narrow_indices (idx_bits rt) int64_indices inds of
                          Inl (e, inds') \<Rightarrow> Inl (e, (inds', dists'))
                        | Inr inds' \<Rightarrow> Inr (inds', dists'))))"

section \<open>The search on several devices\<close>

definition check :: "bool \<Rightarrow> cuda_call \<Rightarrow> 'v state \<Rightarrow> 'v state" where
  \<comment> \<open>\<open>CHECK_CUDA_ERROR\<close>: \<open>failed\<close> is \<open>err != cudaSuccess\<close>; the message is written
      and the function returns\<close>
  "check failed call s = (if failed then s\<lparr>cerr := cerr s @ [call]\<rparr> else s)"

definition set_device :: "'v runtime \<Rightarrow> cuda_call \<Rightarrow> int \<Rightarrow> 'v state \<Rightarrow> 'v state" where
  \<comment> \<open>\<open>CHECK_CUDA_ERROR(cudaSetDevice(i))\<close> on the calling thread\<close>
  "set_device rt call i s =
     (let failed = cuda_fails rt call
      in check failed call (if failed then s else s\<lparr>device := i\<rparr>))"

definition set_device_in_region :: "'v runtime \<Rightarrow> cuda_call \<Rightarrow> int \<Rightarrow> 'v state \<Rightarrow> 'v state" where
  \<comment> \<open>\<open>CHECK_CUDA_ERROR(cudaSetDevice(i))\<close> in iteration \<open>i\<close> of the parallel loop:
      it binds the thread that runs the iteration\<close>
  "set_device_in_region rt call i s =
     (let failed = cuda_fails rt call
      in check failed call (if failed \<or> \<not> caller_runs rt i then s else s\<lparr>device := i\<rparr>))"

definition stage_array :: "'v runtime \<Rightarrow> cuda_call \<Rightarrow> 'v state \<Rightarrow> 'x staged \<times> 'v state" where
  \<comment> \<open>\<open>CHECK_CUDA_ERROR(cudaMalloc(&new_ptr, ...))\<close> of a pointer that starts as \<open>NULL\<close>\<close>
  "stage_array rt malloc_call s =
     (let failed = cuda_fails rt malloc_call
      in (if failed then NullPtr else Uninitialized, check failed malloc_call s))"

definition stage_copy :: "'v runtime \<Rightarrow> cuda_call \<Rightarrow> 'x \<Rightarrow> 'x staged \<Rightarrow> 'v state \<Rightarrow> 'x staged \<times> 'v state" where
  \<comment> \<open>\<open>CHECK_CUDA_ERROR(cudaMemcpy(new_ptr, X, ...))\<close>: a pointer that is \<open>NULL\<close>
      stays so\<close>
  "stage_copy rt memcpy_call X p s =
     (let failed = cuda_fails rt memcpy_call
      in (if failed \<or> p = NullPtr then p else Holds X, check failed memcpy_call s))"

definition stage_device ::
  "'v runtime \<Rightarrow> 'x \<Rightarrow> 'x \<Rightarrow> int \<Rightarrow> int \<Rightarrow> 'v state \<Rightarrow> ('x staged \<times> 'x staged) \<times> 'v state" where
  "stage_device rt X1 X2 sentinel_device i s =
     (if i \<noteq> sentinel_device then
        let s1 = set_device rt (StageSetDevice i) i s;
            (new_ptr_x1, s2) = stage_array rt (StageMalloc1 i) s1;
            (new_ptr_x2, s3) = stage_array rt (StageMalloc2 i) s2;
            (x1, s4) = stage_copy rt (StageMemcpy1 i) X1 new_ptr_x1 s3;
            (x2, s5) = stage_copy rt (StageMemcpy2 i) X2 new_ptr_x2 s4
        in ((x1, x2), s5)
      else ((Holds X1, Holds X2), s))"

fun stage_devices ::
  "'v runtime \<Rightarrow> 'x \<Rightarrow> 'x \<Rightarrow> int \<Rightarrow> int list \<Rightarrow> 'v state
     \<Rightarrow> ('x staged \<times> 'x staged) list \<times> 'v state" where
  "stage_devices rt X1 X2 sentinel_device [] s = ([], s)"
| "stage_devices rt X1 X2 sentinel_device (i # is) s =
     (let (p, s1) = stage_device rt X1 X2 sentinel_device i s;
          (ps, s2) = stage_devices rt X1 X2 sentinel_device is s1
      in (p # ps, s2))"

text \<open>
  The partition of the query rows: \<open>n_search_items / num_devices\<close> and
  \<open>n_search_items % num_devices\<close> are computed in \<open>size_t\<close>, to which the \<open>int\<close>
  operands are converted; \<open>i == (num_devices - 1)\<close> is compared in \<open>int\<close>. The loop
  body runs for \<open>0 \<le> i < num_devices\<close> only, so the divisor is not zero there.
\<close>

definition num_search_items_me :: "nat \<Rightarrow> int \<Rightarrow> int \<Rightarrow> nat" where
  "num_search_items_me n_search_items num_devices i =
     (if i = to_signed 32 (num_devices - 1)
      then size_t_of (n_search_items div to_size_t num_devices
                      + n_search_items mod to_size_t num_devices)
      else n_search_items div to_size_t num_devices)"

definition start_pos_idx :: "nat \<Rightarrow> int \<Rightarrow> int \<Rightarrow> nat" where
  "start_pos_idx n_search_items num_devices i =
     size_t_of ((n_search_items div to_size_t num_devices) * to_size_t i)"

definition failed_copy :: "(nat \<Rightarrow> 'a \<Rightarrow> 'a \<Rightarrow> 'a) \<Rightarrow> 'a list \<Rightarrow> nat \<Rightarrow> 'a list \<Rightarrow> nat \<Rightarrow> 'a list" where
  \<comment> \<open>the destination after a copy of \<open>count\<close> elements to \<open>dst + off\<close> that
      reported an error: the positions of the destination range hold what \<open>left\<close>
      says, the others are as they were\<close>
  "failed_copy left dst off src count =
     map (\<lambda>p. if off \<le> p \<and> p < off + count \<and> p - off < length src
               then left (p - off) (dst ! p) (src ! (p - off))
               else dst ! p)
       [0..<length dst]"

definition device_memcpy ::
  "'v runtime \<Rightarrow> cuda_call \<Rightarrow> (nat \<Rightarrow> 'a \<Rightarrow> 'a \<Rightarrow> 'a) \<Rightarrow> 'a list \<Rightarrow> nat \<Rightarrow> 'a list \<Rightarrow> nat
     \<Rightarrow> 'v state \<Rightarrow> error + ('a list \<times> 'v state)" where
  \<comment> \<open>\<open>CHECK_CUDA_ERROR(cudaMemcpy(dst + off, src, count * sizeof ...))\<close>\<close>
  "device_memcpy rt call left dst off src count s =
     (if cuda_fails rt call then Inr (failed_copy left dst off src count, check True call s)
      else if count \<le> length src then
        (case write_range dst off (take count src) of
           Inl e \<Rightarrow> Inl e
         | Inr dst' \<Rightarrow> Inr (dst', check False call s))
      else Inl MemoryFault)"

definition search_device ::
  "'v runtime \<Rightarrow> ('x, 'v) library \<Rightarrow> int list \<Rightarrow> nat \<Rightarrow> nat \<Rightarrow> nat \<Rightarrow> int \<Rightarrow> int \<Rightarrow> int
     \<Rightarrow> DistanceType \<Rightarrow> int \<times> 'x staged \<times> 'x staged \<Rightarrow> int list \<times> 'v list \<times> 'v state
     \<Rightarrow> (int list \<times> 'v list \<times> 'v state) result" where
  "search_device rt lib sizes n1 n2 n_search_items num_devices sentinel_device k metric d st =
     (let (i, x1, x2) = d;
          (int64_indices, dists, s) = st;
          inputs1 = [x1];
          inputs2 = [x2];
          s1 = set_device_in_region rt (SearchSetDevice i) i s;
          items_me = num_search_items_me n_search_items num_devices i;
          start = start_pos_idx n_search_items num_devices i;
          search_items_x1_local = (x1, size_t_of (n1 * start));
          search_items_x2_local = (x2, size_t_of (n2 * start))
      in if i \<noteq> sentinel_device then
           let count = size_t_of (to_size_t k * items_me)
           in if \<not> can_alloc rt count then Inl (Terminated, (int64_indices, dists, s1))
              else
                let (res_I, res_D) =
                      brute_force_knn_GF lib inputs1 inputs2 sizes n1 n2 search_items_x1_local
                        search_items_x2_local items_me k True True metric
                in
                (case write_range (replicate count (junk_idx rt)) 0 res_I of
                   Inl e \<Rightarrow> Inl (e, (int64_indices, dists, s1))
                 | Inr int64_indices_me \<Rightarrow>
                 (case write_range (replicate count (junk rt)) 0 res_D of
                   Inl e \<Rightarrow> Inl (e, (int64_indices, dists, s1))
                 | Inr dists_me \<Rightarrow>
                 (case device_memcpy rt (GatherDists i) (failed_copy_dists rt (GatherDists i))
                         dists
                         (size_t_of (start * to_size_t k)) dists_me
                         (size_t_of (items_me * to_size_t k)) s1 of
                   Inl e \<Rightarrow> Inl (e, (int64_indices, dists, s1))
                 | Inr (dists', s2) \<Rightarrow>
                 (case device_memcpy rt (GatherIndices i)
                         (failed_copy_indices rt (GatherIndices i)) int64_indices
                         (size_t_of (start * to_size_t k)) int64_indices_me
                         (size_t_of (items_me * to_size_t k)) s2 of
                   Inl e \<Rightarrow> Inl (e, (int64_indices, dists', s2))
                 | Inr (int64_indices', s3) \<Rightarrow>
                     Inr (int64_indices', dists',
                          check (cuda_fails rt (FreeX2 i)) (FreeX2 i)
                            (check (cuda_fails rt (FreeX1 i)) (FreeX1 i) s3))))))
         else
           let (res_I, res_D) =
                 brute_force_knn_GF lib inputs1 inputs2 sizes n1 n2 search_items_x1_local
                   search_items_x2_local items_me k True True metric
           in
           (case write_range int64_indices (size_t_of (start * to_size_t k)) res_I of
              Inl e \<Rightarrow> Inl (e, (int64_indices, dists, s1))
            | Inr int64_indices' \<Rightarrow>
            (case write_range dists (size_t_of (start * to_size_t k)) res_D of
              Inl e \<Rightarrow> Inl (e, (int64_indices', dists, s1))
            | Inr dists' \<Rightarrow> Inr (int64_indices', dists', s1))))"

definition device_rows :: "nat \<Rightarrow> int \<Rightarrow> int \<Rightarrow> nat set" where
  \<comment> \<open>the query rows that iteration \<open>i\<close> of the loop searches\<close>
  "device_rows n_search_items num_devices i =
     {start_pos_idx n_search_items num_devices i ..<
      start_pos_idx n_search_items num_devices i
        + num_search_items_me n_search_items num_devices i}"

text \<open>
  The loop under \<open>#pragma omp parallel for num_threads(num_devices)\<close>. Its iterations
  run on the threads of a team and write disjoint parts of the two arrays, so the arrays
  do not depend on the order; \<open>cudaSetDevice\<close> binds the thread that calls it, so that an
  iteration changes the binding of the calling thread only when that thread runs it.
  The messages of the threads reach the error stream in some order: the model lists
  them by iteration. An exception cannot leave the region: when the allocation of the
  arrays of an iteration fails the program ends, and no later statement runs.
\<close>

fun search_devices ::
  "'v runtime \<Rightarrow> ('x, 'v) library \<Rightarrow> int list \<Rightarrow> nat \<Rightarrow> nat \<Rightarrow> nat \<Rightarrow> int \<Rightarrow> int \<Rightarrow> int
     \<Rightarrow> DistanceType \<Rightarrow> (int \<times> 'x staged \<times> 'x staged) list \<Rightarrow> int list \<times> 'v list \<times> 'v state
     \<Rightarrow> (int list \<times> 'v list \<times> 'v state) result" where
  "search_devices rt lib sizes n1 n2 n_search_items num_devices sentinel_device k metric [] st =
     Inr st"
| "search_devices rt lib sizes n1 n2 n_search_items num_devices sentinel_device k metric (d # ds) st =
     (case search_device rt lib sizes n1 n2 n_search_items num_devices sentinel_device k metric d st of
        Inl e \<Rightarrow> Inl e
      | Inr st' \<Rightarrow>
          search_devices rt lib sizes n1 n2 n_search_items num_devices sentinel_device k metric ds st')"

text \<open>
  \<open>per_device_x1[i]\<close> and \<open>inputs1_vec[i]\<close> both hold the pointer staged for device
  \<open>i\<close>; the second loop receives it paired with \<open>i\<close>. The arguments
  \<open>search_items1\<close> and \<open>search_items2\<close> are not used by the source. The last
  \<open>cudaSetDevice\<close> is not checked.
\<close>

definition compute_knn_GF ::
  "'v runtime \<Rightarrow> ('x, 'v) library \<Rightarrow> 'x \<Rightarrow> 'x \<Rightarrow> int list \<Rightarrow> 'v list \<Rightarrow> nat \<Rightarrow> nat \<Rightarrow> nat
     \<Rightarrow> 'x \<Rightarrow> 'x \<Rightarrow> nat \<Rightarrow> int \<Rightarrow> DistanceType \<Rightarrow> 'v state
     \<Rightarrow> (int list \<times> 'v list \<times> 'v state) result" where
  "compute_knn_GF rt lib X1 X2 inds dists m n1 n2 search_items1 search_items2 n_search_items k
       metric s =
     (let sizes = [to_signed 32 (int m)];
          sentinel_device = (if cuda_fails rt GetDevice then 0 else device s);
          s1 = check (cuda_fails rt GetDevice) GetDevice s;
          num_devices = (if cuda_fails rt GetDeviceCount then 0 else device_count rt);
          s2 = check (cuda_fails rt GetDeviceCount) GetDeviceCount s1;
          (per_device, s3) = stage_devices rt X1 X2 sentinel_device [0..num_devices - 1] s2;
          s4 = set_device rt RestoreDevice sentinel_device s3;
          count = size_t_of (to_size_t k * n_search_items)
      in if \<not> can_alloc rt count then Inl (OutOfMemory, (inds, dists, s4))
         else
           (case search_devices rt lib sizes n1 n2 n_search_items num_devices sentinel_device k
                   metric (zip [0..num_devices - 1] per_device)
                   (replicate count (junk_idx rt), dists, s4) of
              Inl (e, (int64_indices, dists', s5)) \<Rightarrow> Inl (e, (inds, dists', s5))
            | Inr (int64_indices, dists', s5) \<Rightarrow>
                let s6 = (if cuda_fails rt FinalSetDevice then s5
                          else s5\<lparr>device := sentinel_device\<rparr>)
                in (case narrow_indices (idx_bits rt) int64_indices inds of
                      Inl (e, inds') \<Rightarrow> Inl (e, (inds', dists', s6))
                    | Inr inds' \<Rightarrow> Inr (inds', dists', s6))))"

section \<open>The mutual reachability graph\<close>

definition coo_row_of :: "nat \<Rightarrow> int \<Rightarrow> int \<Rightarrow> error + int" where
  \<comment> \<open>the lambda \<open>[min_samples](value_idx c) -> value_idx { return c / min_samples; }\<close>\<close>
  "coo_row_of w min_samples c =
     (if min_samples = 0 then Inl DivisionByZero
      else Inr (to_signed w (to_signed (common_width w) (c_div c min_samples))))"

definition self_loop_weight :: "('x, 'v) library \<Rightarrow> 'v COO \<Rightarrow> nat \<Rightarrow> error + 'v" where
  \<comment> \<open>the last lambda, on element \<open>e\<close> of the zip of \<open>rows\<close>, \<open>cols\<close> and \<open>vals\<close>\<close>
  "self_loop_weight lib g e =
     (case read_at (rows g) (int e) of
        Inl x \<Rightarrow> Inl x
      | Inr r \<Rightarrow>
          (case read_at (cols g) (int e) of
             Inl x \<Rightarrow> Inl x
           | Inr c \<Rightarrow>
               (case read_at (vals g) (int e) of
                  Inl x \<Rightarrow> Inl x
                | Inr v \<Rightarrow> Inr (if r = c then value_max lib else v))))"

definition self_loops_get_max_distance :: "('x, 'v) library \<Rightarrow> 'v state \<Rightarrow> 'v state result" where
  \<comment> \<open>the last \<open>thrust::transform\<close> of both graph functions: it reads and writes
      \<open>out.vals()\<close> at the same position\<close>
  "self_loops_get_max_distance lib s =
     (let g = out s
      in case thrust_transform (nat (nnz g)) (self_loop_weight lib g) (vals g) of
           Inl (e, vs) \<Rightarrow> Inl (e, s\<lparr>out := g\<lparr>vals := vs\<rparr>\<rparr>)
         | Inr vs \<Rightarrow> Inr (s\<lparr>out := g\<lparr>vals := vs\<rparr>\<rparr>))"

text \<open>
  \<open>mutual_reachability_graph\<close> up to and including \<open>sorted_coo_to_csr\<close>, that is
  without its last statement.
\<close>

definition symmetrized_knn_graph ::
  "'v runtime \<Rightarrow> ('x, 'v) library \<Rightarrow> 'x \<Rightarrow> nat \<Rightarrow> nat \<Rightarrow> DistanceType \<Rightarrow> int \<Rightarrow> 'v \<Rightarrow> 'v state
     \<Rightarrow> 'v state result" where
  "symmetrized_knn_graph rt lib X m n metric min_samples alpha s =
     (if metric \<noteq> L2SqrtExpanded then Inl (UnsupportedMetric, s)
      else
        let count = size_t_of (to_size_t min_samples * m)
        in if \<not> can_alloc rt count then Inl (OutOfMemory, s)
           else
             (case compute_knn rt lib X (replicate count (junk_idx rt))
                     (replicate count (junk rt)) m n X m min_samples metric of
                Inl (e, _) \<Rightarrow> Inl (e, s)
              | Inr (inds, dists) \<Rightarrow>
              (case core_distances (idx_bits rt) dists min_samples min_samples m (core_dists s) of
                Inl (e, cd) \<Rightarrow> Inl (e, s\<lparr>core_dists := cd\<rparr>)
              | Inr cd \<Rightarrow>
                  let s1 = s\<lparr>core_dists := cd\<rparr>;
                      (inds', dists') =
                        mutual_reachability_knn_l2 lib inds dists X m n min_samples cd
                          (one_over lib alpha)
                  in (case thrust_transform (size_t_of (m * to_size_t min_samples))
                             (\<lambda>i. coo_row_of (idx_bits rt) min_samples
                                     (counting_iterator (idx_bits rt) i))
                             (replicate count (junk_idx rt)) of
                        Inl (e, _) \<Rightarrow> Inl (e, s1)
                      | Inr coo_rows \<Rightarrow>
                          let s2 = s1\<lparr>out := symmetrize lib coo_rows inds' dists' m m
                                                (size_t_of (to_size_t min_samples * m)) (out s1)\<rparr>
                          in Inr (s2\<lparr>indptr := sorted_coo_to_csr lib (rows (out s2)) (nnz (out s2))
                                                  (indptr s2) (size_t_of (m + 1))\<rparr>)))))"

definition mutual_reachability_graph ::
  "'v runtime \<Rightarrow> ('x, 'v) library \<Rightarrow> 'x \<Rightarrow> nat \<Rightarrow> nat \<Rightarrow> DistanceType \<Rightarrow> int \<Rightarrow> 'v \<Rightarrow> 'v state
     \<Rightarrow> 'v state result" where
  "mutual_reachability_graph rt lib X m n metric min_samples alpha s =
     (case symmetrized_knn_graph rt lib X m n metric min_samples alpha s of
        Inl e \<Rightarrow> Inl e
      | Inr s' \<Rightarrow> self_loops_get_max_distance lib s')"

text \<open>
  \<open>mutual_reachability_graph_GF\<close>, likewise without its last statement. The
  assignment \<open>min_samples = 64\<close> follows the check of the metric; the call of
  \<open>mutual_reachability_knn_l2\<close> is commented out in the source.
\<close>

definition symmetrized_knn_graph_GF ::
  "'v runtime \<Rightarrow> ('x, 'v) library \<Rightarrow> 'x \<Rightarrow> 'x \<Rightarrow> nat \<Rightarrow> nat \<Rightarrow> nat \<Rightarrow> DistanceType \<Rightarrow> int \<Rightarrow> 'v
     \<Rightarrow> 'v state \<Rightarrow> 'v state result" where
  "symmetrized_knn_graph_GF rt lib X1 X2 m n1 n2 metric min_samples alpha s =
     (if metric \<noteq> L2SqrtExpanded then Inl (UnsupportedMetric, s)
      else
        let min_samples = (64::int);
            count = size_t_of (to_size_t min_samples * m)
        in if \<not> can_alloc rt count then Inl (OutOfMemory, s)
           else
             (case compute_knn_GF rt lib X1 X2 (replicate count (junk_idx rt))
                     (replicate count (junk rt)) m n1 n2 X1 X2 m min_samples metric s of
                Inl (e, (_, _, s1)) \<Rightarrow> Inl (e, s1)
              | Inr (inds, dists, s1) \<Rightarrow>
              (case core_distances (idx_bits rt) dists min_samples 64 m (core_dists s1) of
                Inl (e, cd) \<Rightarrow> Inl (e, s1\<lparr>core_dists := cd\<rparr>)
              | Inr cd \<Rightarrow>
                  let s2 = s1\<lparr>core_dists := cd\<rparr>
                  in (case thrust_transform (size_t_of (m * to_size_t min_samples))
                             (\<lambda>i. coo_row_of (idx_bits rt) min_samples
                                     (counting_iterator (idx_bits rt) i))
                             (replicate count (junk_idx rt)) of
                        Inl (e, _) \<Rightarrow> Inl (e, s2)
                      | Inr coo_rows \<Rightarrow>
                          let s3 = s2\<lparr>out := symmetrize lib coo_rows inds dists m m
                                                (size_t_of (to_size_t min_samples * m)) (out s2)\<rparr>
                          in Inr (s3\<lparr>indptr := sorted_coo_to_csr lib (rows (out s3)) (nnz (out s3))
                                                  (indptr s3) (size_t_of (m + 1))\<rparr>)))))"

definition mutual_reachability_graph_GF ::
  "'v runtime \<Rightarrow> ('x, 'v) library \<Rightarrow> 'x \<Rightarrow> 'x \<Rightarrow> nat \<Rightarrow> nat \<Rightarrow> nat \<Rightarrow> DistanceType \<Rightarrow> int \<Rightarrow> 'v
     \<Rightarrow> 'v state \<Rightarrow> 'v state result" where
  "mutual_reachability_graph_GF rt lib X1 X2 m n1 n2 metric min_samples alpha s =
     (case symmetrized_knn_graph_GF rt lib X1 X2 m n1 n2 metric min_samples alpha s of
        Inl e \<Rightarrow> Inl e
      | Inr s' \<Rightarrow> self_loops_get_max_distance lib s')"

definition self_loops_forced :: "'v \<Rightarrow> 'v COO \<Rightarrow> 'v COO \<Rightarrow> bool" where
  \<comment> \<open>\<open>after\<close> is \<open>before\<close> with the weight of every edge from a point to itself
      replaced by \<open>vmax\<close>\<close>
  "self_loops_forced vmax before after \<longleftrightarrow>
     rows after = rows before \<and> cols after = cols before \<and> nnz after = nnz before \<and>
     (\<forall>e\<in>{0..<nat (nnz after)}.
        vals after ! e = (if rows after ! e = cols after ! e then vmax else vals before ! e))"

section \<open>A small machine for the examples\<close>

text \<open>
  Two devices, no failing runtime call, room for allocations below 1000 elements. The
  search of the example returns, for query row \<open>q\<close> of \<open>n\<close> rows and rank \<open>j\<close>,
  the neighbour \<open>(q + j) mod n\<close> at distance \<open>10 * j + q\<close>; its symmetrization keeps
  the edges as they are; the weights are integers.
\<close>

definition example_search :: "nat \<Rightarrow> nat \<Rightarrow> nat \<Rightarrow> int \<Rightarrow> int list \<times> int list" where
  "example_search n_total first_row n_rows k =
     (concat (map (\<lambda>q. map (\<lambda>j. (int (first_row + q) + j) mod int n_total) [0..k - 1]) [0..<n_rows]),
      concat (map (\<lambda>q. map (\<lambda>j. 10 * j + int (first_row + q)) [0..k - 1]) [0..<n_rows]))"

definition example_library :: "(nat, int) library" where
  "example_library =
     \<lparr>brute_force_knn = (\<lambda>inputs sizes n search_items n_search_items k rmi rmq metric.
        example_search n_search_items 0 n_search_items k),
      brute_force_knn_GF = (\<lambda>inputs1 inputs2 sizes n1 n2 search1 search2 n_search_items k rmi rmq
          metric.
        example_search (nat (hd sizes)) (snd search1 div n1) n_search_items k),
      mutual_reachability_knn_l2 = (\<lambda>inds dists X m n min_samples core inv_alpha.
        (inds, map (\<lambda>d. max d inv_alpha) dists)),
      symmetrize = (\<lambda>r c v m n z g. \<lparr>rows = r, cols = c, vals = v, nnz = int z\<rparr>),
      sorted_coo_to_csr = (\<lambda>r z ip m1.
        map (\<lambda>i. int (length (filter (\<lambda>x. x < int i) (take (nat z) r)))) [0..<m1]),
      value_max = 999,
      one_over = (\<lambda>alpha. alpha)\<rparr>"

definition example_runtime :: "int runtime" where
  "example_runtime =
     \<lparr>idx_bits = 32, device_count = 2, cuda_fails = (\<lambda>c. False),
      can_alloc = (\<lambda>count. count < 1000), junk = - 7, junk_idx = - 9,
      failed_copy_dists = (\<lambda>c j old new. old),
      failed_copy_indices = (\<lambda>c j old new. old),
      caller_runs = (\<lambda>i. i = 0)\<rparr>"

definition example_state :: "int state" where
  "example_state =
     \<lparr>indptr = [0, 0, 0, 0], core_dists = [0, 0, 0],
      out = \<lparr>rows = [], cols = [], vals = [], nnz = 0\<rparr>, cerr = [], device = 0\<rparr>"

definition gf_state :: "int state" where
  "gf_state = example_state\<lparr>indptr := [0, 0, 0], core_dists := [0, 0]\<rparr>"

definition gf_result :: "int state" where
  "gf_result =
     \<lparr>indptr = [0, 64, 128], core_dists = [630, 631],
      out = \<lparr>rows = replicate 64 0 @ replicate 64 1,
              cols = concat (replicate 32 [0, 1]) @ concat (replicate 32 [1, 0]),
              vals = concat (map (\<lambda>j. [999, 20 * j + 10]) [0..31])
                     @ concat (map (\<lambda>j. [999, 20 * j + 11]) [0..31]),
              nnz = 128\<rparr>,
      cerr = [], device = 0\<rparr>"





section \<open>Integer conversions that keep the value\<close>

lemma to_signed_id: "- (2 ^ (w - 1)) \<le> x \<Longrightarrow> x < 2 ^ (w - 1) \<Longrightarrow> to_signed w x = x"
  by (simp add: to_signed_def signed_take_bit_int_eq_self)

lemma to_signed_nat_id: "int j < 2 ^ (w - 1) \<Longrightarrow> to_signed w (int j) = int j"
proof (rule to_signed_id)
  have "(0::int) \<le> 2 ^ (w - 1)" by simp
  then show "- (2 ^ (w - 1)) \<le> int j" by linarith
qed

section \<open>The transform over a range\<close>

lemma transform_range_total:
  assumes "i + c \<le> length buf" and "\<forall>j. i \<le> j \<and> j < i + c \<longrightarrow> g j = Inr (f j)"
  shows "\<exists>res. transform_range i c g buf = Inr res \<and> length res = length buf \<and>
           (\<forall>j. i \<le> j \<and> j < i + c \<longrightarrow> res ! j = f j) \<and>
           (\<forall>j. j < i \<or> i + c \<le> j \<longrightarrow> res ! j = buf ! j)"
  using assms
proof (induction c arbitrary: i buf)
  case 0
  then show ?case by auto
next
  case (Suc c)
  have gi: "g i = Inr (f i)" using Suc.prems(2) by simp
  have il: "i < length buf" using Suc.prems(1) by simp
  have p1: "Suc i + c \<le> length (buf[i := f i])" using Suc.prems(1) by simp
  have p2: "\<forall>j. Suc i \<le> j \<and> j < Suc i + c \<longrightarrow> g j = Inr (f j)" using Suc.prems(2) by simp
  from Suc.IH [OF p1 p2] obtain res where
    r: "transform_range (Suc i) c g (buf[i := f i]) = Inr res"
    and l: "length res = length (buf[i := f i])"
    and a: "\<forall>j. Suc i \<le> j \<and> j < Suc i + c \<longrightarrow> res ! j = f j"
    and b: "\<forall>j. j < Suc i \<or> Suc i + c \<le> j \<longrightarrow> res ! j = (buf[i := f i]) ! j"
    by blast
  have e: "transform_range i (Suc c) g buf = Inr res" using gi il r by simp
  have a': "\<forall>j. i \<le> j \<and> j < i + Suc c \<longrightarrow> res ! j = f j"
  proof (intro allI impI)
    fix j assume h: "i \<le> j \<and> j < i + Suc c"
    show "res ! j = f j"
    proof (cases "j = i")
      case True
      then show ?thesis using b il by simp
    next
      case False
      then show ?thesis using a h by simp
    qed
  qed
  have b': "\<forall>j. j < i \<or> i + Suc c \<le> j \<longrightarrow> res ! j = buf ! j"
    using b by auto
  show ?case using e l a' b' by simp
qed

section \<open>Core distances: the gather and its precondition\<close>

text \<open>
  C1 as the specification states it, for every call with \<open>n_neighbors \<ge> min_samples\<close>,
  does not hold. With \<open>min_samples = 0\<close> and \<open>n_neighbors = 2\<close> the position
  \<open>0 * n_neighbors + (min_samples - 1)\<close> of point 0 is \<open>-1\<close>, outside \<open>knn_dists\<close>, and
  nothing is written. With \<open>value_idx\<close> of 32 bits and \<open>n_neighbors = min_samples = 64\<close>
  the position of row 33554432 is computed as \<open>-2147483585\<close> and not as
  \<open>33554432 * 64 + 63\<close>.
\<close>

theorem core_distances_outside_its_domain:
  "(0::int) \<le> 2 \<and>
   core_distances 32 [1, 2, 3, 4 :: int] 0 2 2 [8, 9] = Inl (MemoryFault, [8, 9]) \<and>
   (64::int) \<le> 64 \<and>
   core_distance_index 32 (counting_iterator 32 33554432) 64 64 = - 2147483585 \<and>
   (33554432 * 64 + (64 - 1) :: int) \<noteq> - 2147483585"
proof (intro conjI)
  show "core_distances 32 [1, 2, 3, 4 :: int] 0 2 2 [8, 9] = Inl (MemoryFault, [8, 9])"
    by code_simp
  show "core_distance_index 32 (counting_iterator 32 33554432) 64 64 = - 2147483585"
    by (simp add: core_distance_index_def counting_iterator_def to_signed_def common_width_def
        signed_take_bit_eq_take_bit_shift take_bit_eq_mod)
qed simp_all

text \<open>
  C1 (as amended). For a call of \<open>core_distances\<close> with
  \<open>1 \<le> min_samples \<le> n_neighbors\<close>, on arrays of the documented sizes
  (\<open>n * n_neighbors\<close> distances whose positions fit \<open>value_idx\<close>, \<open>n\<close> outputs), the call
  returns and \<open>out[i]\<close> is \<open>knn_dists[i * n_neighbors + (min_samples - 1)]\<close> for every
  point \<open>i < n\<close>; the output array keeps its length and its entries from \<open>n\<close> on, and
  the call returns nothing else.
\<close>

theorem core_distances_gather:
  assumes ge: "min_samples \<le> n_neighbors"
    and pos: "1 \<le> min_samples"
    and nn: "n_neighbors < 2 ^ 31"
    and sz: "int n * n_neighbors \<le> int (length knn_dists)"
    and rep: "int (length knn_dists) < 2 ^ (w - 1)"
    and ol: "n \<le> length buf"
  shows "\<exists>res. core_distances w knn_dists min_samples n_neighbors n buf = Inr res \<and>
           length res = length buf \<and>
           (\<forall>i<n. res ! i = knn_dists ! (i * nat n_neighbors + nat (min_samples - 1))) \<and>
           (\<forall>j. n \<le> j \<and> j < length buf \<longrightarrow> res ! j = buf ! j)"
proof -
  let ?f = "\<lambda>i. knn_dists ! (i * nat n_neighbors + nat (min_samples - 1))"
  let ?g = "\<lambda>i. read_at knn_dists
                     (core_distance_index w (counting_iterator w i) n_neighbors min_samples)"
  have g: "\<forall>j. 0 \<le> j \<and> j < 0 + n \<longrightarrow> ?g j = Inr (?f j)"
  proof (intro allI impI)
    fix j assume "0 \<le> j \<and> j < 0 + n"
    then have jn: "j < n" by simp
    have nn1: "1 \<le> n_neighbors" using ge pos by simp
    have "int (j + 1) * n_neighbors \<le> int n * n_neighbors"
      using jn nn1 by (intro mult_right_mono) auto
    then have up: "int j * n_neighbors + n_neighbors \<le> int (length knn_dists)"
      using sz by (simp add: algebra_simps)
    have jn0: "0 \<le> int j * n_neighbors" using nn1 by simp
    have jle: "int j \<le> int j * n_neighbors" using nn1 by (simp add: mult_le_cancel_left1)
    have jrep: "int j < 2 ^ (w - 1)" using jle up nn1 rep by linarith
    have ci: "counting_iterator w j = int j"
      unfolding counting_iterator_def by (rule to_signed_nat_id [OF jrep])
    have cw: "(2::int) ^ (w - 1) \<le> 2 ^ (common_width w - 1)"
      by (rule power_increasing) (auto simp: common_width_def)
    have cw32: "(2::int) ^ 31 \<le> 2 ^ (common_width w - 1)"
      by (rule power_increasing) (auto simp: common_width_def)
    have m1: "to_signed 32 (min_samples - 1) = min_samples - 1"
      by (rule to_signed_id) (use pos ge nn in auto)
    have pr: "to_signed (common_width w) (int j * n_neighbors) = int j * n_neighbors"
      by (rule to_signed_id) (use jn0 up nn1 rep cw in linarith)+
    have sm: "to_signed (common_width w) (int j * n_neighbors + (min_samples - 1))
              = int j * n_neighbors + (min_samples - 1)"
      by (rule to_signed_id) (use jn0 up nn1 rep cw pos ge in linarith)+
    have idx: "core_distance_index w (counting_iterator w j) n_neighbors min_samples
               = int j * n_neighbors + (min_samples - 1)"
      by (simp add: core_distance_index_def ci m1 pr sm)
    have nat_idx: "nat (int j * n_neighbors + (min_samples - 1))
                   = j * nat n_neighbors + nat (min_samples - 1)"
      using nn1 pos by (simp add: nat_add_distrib nat_mult_distrib)
    have inb: "int j * n_neighbors + (min_samples - 1) < int (length knn_dists)"
      using up ge by linarith
    have nonneg: "0 \<le> int j * n_neighbors + (min_samples - 1)" using jn0 pos by linarith
    have lt: "nat (int j * n_neighbors + (min_samples - 1)) < length knn_dists"
      using inb nonneg by linarith
    show "?g j = Inr (?f j)"
      using lt nonneg unfolding idx read_at_def by (simp only: nat_idx if_True simp_thms)
  qed
  have l: "0 + n \<le> length buf" using ol by simp
  from transform_range_total [OF l g] obtain res where
    r: "transform_range 0 n ?g buf = Inr res" and len: "length res = length buf"
    and a: "\<forall>j. 0 \<le> j \<and> j < 0 + n \<longrightarrow> res ! j = ?f j"
    and b: "\<forall>j. j < 0 \<or> 0 + n \<le> j \<longrightarrow> res ! j = buf ! j"
    by blast
  have "core_distances w knn_dists min_samples n_neighbors n buf = Inr res"
    using ge r by (simp add: core_distances_def thrust_transform_def)
  then show ?thesis using len a b by auto
qed

theorem core_distances_gather_witness:
  "core_distances 32 [1, 2, 3, 4, 5, 6 :: int] 2 3 2 [0, 0, 0] = Inr [2, 5, 0]"
proof -
  have ev: "core_distances 32 [1, 2, 3, 4, 5, 6 :: int] 2 3 2 [0, 0, 0] = Inr [2, 5, 0]"
    by code_simp
  have "\<exists>res. core_distances 32 [1, 2, 3, 4, 5, 6 :: int] 2 3 2 [0, 0, 0] = Inr res \<and>
           length res = length [0, 0, 0 :: int] \<and>
           (\<forall>i<2. res ! i = [1, 2, 3, 4, 5, 6 :: int] ! (i * nat 3 + nat (2 - 1))) \<and>
           (\<forall>j. 2 \<le> j \<and> j < length [0, 0, 0 :: int] \<longrightarrow> res ! j = [0, 0, 0 :: int] ! j)"
    by (rule core_distances_gather) simp_all
  then show ?thesis using ev by simp
qed

text \<open>
  C4. A call of \<open>core_distances\<close> with \<open>n_neighbors < min_samples\<close> raises the
  invalid-configuration error and the output array is as it was.
\<close>

theorem core_distances_invalid:
  "n_neighbors < min_samples \<Longrightarrow>
     core_distances w knn_dists min_samples n_neighbors n buf = Inl (InvalidConfiguration, buf)"
  by (simp add: core_distances_def)

theorem core_distances_invalid_witness:
  "(2::int) < 3 \<and>
   core_distances 32 [1, 2, 3, 4 :: int] 3 2 2 [8, 9] = Inl (InvalidConfiguration, [8, 9])"
  using core_distances_invalid [of 2 3 32 "[1, 2, 3, 4 :: int]" 2 "[8, 9]"] by simp

section \<open>The partition of the query rows over the devices\<close>

lemma to_size_t_id: "0 \<le> x \<Longrightarrow> x < 2 ^ 64 \<Longrightarrow> to_size_t x = nat x"
  by (simp add: to_size_t_def)

lemma size_t_of_id: "int x < 2 ^ 64 \<Longrightarrow> size_t_of x = x"
  by (simp add: size_t_of_def)

lemma partition_values:
  assumes d1: "1 \<le> num_devices" and d2: "num_devices < 2 ^ 31"
    and n64: "int n < 2 ^ 64" and i0: "0 \<le> i" and id: "i < num_devices"
  shows "start_pos_idx n num_devices i = nat i * (n div nat num_devices)"
    and "num_search_items_me n num_devices i =
           (if i = num_devices - 1 then n div nat num_devices + n mod nat num_devices
            else n div nat num_devices)"
proof -
  have sd: "to_size_t num_devices = nat num_devices"
    using d1 d2 by (intro to_size_t_id) auto
  have si: "to_size_t i = nat i"
    using i0 id d2 by (intro to_size_t_id) auto
  have last: "to_signed 32 (num_devices - 1) = num_devices - 1"
    using d1 d2 by (intro to_signed_id) auto
  have dpos: "0 < nat num_devices" using d1 by simp
  have "nat i * (n div nat num_devices) \<le> nat num_devices * (n div nat num_devices)"
    using id i0 by (intro mult_right_mono) auto
  also have "\<dots> \<le> n" by simp
  finally have le: "nat i * (n div nat num_devices) \<le> n" .
  have le': "n div nat num_devices * nat i \<le> n"
    using le by (simp only: mult.commute)
  have "int (n div nat num_devices * nat i) \<le> int n"
    using le' by (rule iffD2 [OF of_nat_le_iff])
  then have "int (n div nat num_devices * nat i) < 2 ^ 64"
    using n64 by linarith
  then have "size_t_of (n div nat num_devices * nat i) = n div nat num_devices * nat i"
    by (rule size_t_of_id)
  then show "start_pos_idx n num_devices i = nat i * (n div nat num_devices)"
    unfolding start_pos_idx_def sd si by (simp only: mult.commute)
  have "n div nat num_devices * 1 \<le> n div nat num_devices * nat num_devices"
    using dpos by (intro mult_le_mono2) simp
  moreover have "n div nat num_devices * nat num_devices + n mod nat num_devices = n"
    by simp
  ultimately have qr: "n div nat num_devices + n mod nat num_devices \<le> n"
    by linarith
  have "int (n div nat num_devices + n mod nat num_devices) \<le> int n"
    using qr by (rule iffD2 [OF of_nat_le_iff])
  then have "int (n div nat num_devices + n mod nat num_devices) < 2 ^ 64"
    using n64 by linarith
  then have "size_t_of (n div nat num_devices + n mod nat num_devices)
             = n div nat num_devices + n mod nat num_devices"
    by (rule size_t_of_id)
  then show "num_search_items_me n num_devices i =
           (if i = num_devices - 1 then n div nat num_devices + n mod nat num_devices
            else n div nat num_devices)"
    unfolding num_search_items_me_def sd last by simp
qed

lemma chunks_cover_nat:
  fixes q r D :: nat
  assumes D: "0 < D"
  shows "(\<Union>i\<in>{0..<D}. {i * q ..< i * q + (if i = D - 1 then q + r else q)}) = {0..<D * q + r}"
proof (rule set_eqI, rule iffI)
  fix x assume "x \<in> (\<Union>i\<in>{0..<D}. {i * q ..< i * q + (if i = D - 1 then q + r else q)})"
  then obtain i where i: "i < D" and x: "i * q \<le> x" "x < i * q + (if i = D - 1 then q + r else q)"
    by auto
  show "x \<in> {0..<D * q + r}"
  proof (cases "i = D - 1")
    case True
    then have "i * q + q = D * q" using D by (cases D) (simp_all add: algebra_simps)
    then show ?thesis using x True by simp
  next
    case False
    then have "Suc i \<le> D - 1" using i by simp
    then have "Suc i * q \<le> (D - 1) * q" by (rule mult_le_mono1)
    also have "\<dots> \<le> D * q" by (simp add: mult_le_mono1)
    finally have "i * q + q \<le> D * q" by (simp add: algebra_simps)
    then show ?thesis using x False by simp
  qed
next
  fix x assume "x \<in> {0..<D * q + r}"
  then have xn: "x < D * q + r" by simp
  show "x \<in> (\<Union>i\<in>{0..<D}. {i * q ..< i * q + (if i = D - 1 then q + r else q)})"
  proof (cases "x < (D - 1) * q")
    case True
    then have q0: "0 < q" by (cases q) auto
    let ?i = "x div q"
    have "?i < D - 1" using True q0 by (simp add: less_mult_imp_div_less)
    moreover have "?i * q \<le> x" by simp
    moreover have "x < ?i * q + q" using q0
      by (metis add.commute div_mult_mod_eq mod_less_divisor mult.commute nat_add_left_cancel_less)
    ultimately show ?thesis by (intro UN_I [of ?i]) auto
  next
    case False
    have e: "(D - 1) * q + q = D * q" using D by (cases D) (simp_all add: algebra_simps)
    have "(D - 1) * q \<le> x" using False by simp
    moreover have "x < (D - 1) * q + (q + r)" using xn e by linarith
    ultimately show ?thesis using D by (intro UN_I [of "D - 1"]) auto
  qed
qed

lemma chunks_disjoint_nat:
  fixes q r D :: nat
  assumes "i < j" and "j < D"
  shows "{i * q ..< i * q + (if i = D - 1 then q + r else q)}
         \<inter> {j * q ..< j * q + (if j = D - 1 then q + r else q)} = {}"
proof -
  have ni: "i \<noteq> D - 1" using assms by simp
  have "Suc i * q \<le> j * q" using assms(1) by (intro mult_le_mono1) simp
  then have "i * q + q \<le> j * q" by (simp add: algebra_simps)
  then show ?thesis using ni by auto
qed


lemma device_rows_eq:
  assumes d1: "1 \<le> num_devices" and d2: "num_devices < 2 ^ 31"
    and n64: "int n < 2 ^ 64" and i0: "0 \<le> i" and id: "i < num_devices"
  shows "device_rows n num_devices i =
         {nat i * (n div nat num_devices) ..<
          nat i * (n div nat num_devices)
            + (if nat i = nat num_devices - 1
               then n div nat num_devices + n mod nat num_devices
               else n div nat num_devices)}"
proof -
  have c: "(i = num_devices - 1) = (nat i = nat num_devices - 1)"
    using i0 id d1 by auto
  show ?thesis
    unfolding device_rows_def partition_values [OF d1 d2 n64 i0 id] c ..
qed

text \<open>
  C5. For a count \<open>n\<close> of query rows and \<open>num_devices \<ge> 1\<close> devices, iteration
  \<open>i\<close> of the loop searches the rows from \<open>i * (n div num_devices)\<close> on:
  \<open>n div num_devices\<close> rows, and \<open>n div num_devices + n mod num_devices\<close> rows on the
  last device. The parts of two different devices are disjoint, and together they are
  the rows \<open>0, ..., n - 1\<close>.
\<close>

theorem partition_chunks:
  assumes d1: "1 \<le> num_devices" and d2: "num_devices < 2 ^ 31" and n64: "int n < 2 ^ 64"
  shows "(\<forall>i. 0 \<le> i \<and> i < num_devices \<longrightarrow>
            start_pos_idx n num_devices i = nat i * (n div nat num_devices) \<and>
            num_search_items_me n num_devices i =
              (if i = num_devices - 1 then n div nat num_devices + n mod nat num_devices
               else n div nat num_devices)) \<and>
         (\<Union>i\<in>{0..<num_devices}. device_rows n num_devices i) = {0..<n} \<and>
         (\<forall>i j. 0 \<le> i \<and> i < num_devices \<and> 0 \<le> j \<and> j < num_devices \<and> i \<noteq> j \<longrightarrow>
            device_rows n num_devices i \<inter> device_rows n num_devices j = {})"
proof (intro conjI allI impI)
  fix i assume "0 \<le> i \<and> i < num_devices"
  then show "start_pos_idx n num_devices i = nat i * (n div nat num_devices)"
    and "num_search_items_me n num_devices i =
              (if i = num_devices - 1 then n div nat num_devices + n mod nat num_devices
               else n div nat num_devices)"
    using partition_values [OF d1 d2 n64] by blast+
next
  let ?D = "nat num_devices"
  let ?q = "n div ?D"
  let ?r = "n mod ?D"
  let ?F = "\<lambda>k. {k * ?q ..< k * ?q + (if k = ?D - 1 then ?q + ?r else ?q)}"
  have D: "0 < ?D" using d1 by simp
  have img: "nat ` {0..<num_devices} = {0..<?D}"
  proof (rule set_eqI, rule iffI)
    fix k assume "k \<in> nat ` {0..<num_devices}"
    then show "k \<in> {0..<?D}" by auto
  next
    fix k assume k: "k \<in> {0..<?D}"
    then have "int k \<in> {0..<num_devices}" by auto
    moreover have "k = nat (int k)" by simp
    ultimately show "k \<in> nat ` {0..<num_devices}" by (rule rev_image_eqI)
  qed
  have "(\<Union>i\<in>{0..<num_devices}. device_rows n num_devices i)
        = (\<Union>i\<in>{0..<num_devices}. ?F (nat i))"
    by (rule SUP_cong [OF refl]) (simp add: device_rows_eq [OF d1 d2 n64])
  also have "\<dots> = (\<Union>k\<in>nat ` {0..<num_devices}. ?F k)"
    by (simp only: image_image)
  also have "\<dots> = (\<Union>k\<in>{0..<?D}. ?F k)" by (simp only: img)
  also have "\<dots> = {0..<?D * ?q + ?r}" by (rule chunks_cover_nat [OF D])
  also have "?D * ?q + ?r = n" by simp
  finally show "(\<Union>i\<in>{0..<num_devices}. device_rows n num_devices i) = {0..<n}" .
next
  fix i j
  assume h: "0 \<le> i \<and> i < num_devices \<and> 0 \<le> j \<and> j < num_devices \<and> i \<noteq> j"
  have ei: "device_rows n num_devices i =
         {nat i * (n div nat num_devices) ..<
          nat i * (n div nat num_devices)
            + (if nat i = nat num_devices - 1
               then n div nat num_devices + n mod nat num_devices
               else n div nat num_devices)}"
    using h by (intro device_rows_eq [OF d1 d2 n64]) auto
  have ej: "device_rows n num_devices j =
         {nat j * (n div nat num_devices) ..<
          nat j * (n div nat num_devices)
            + (if nat j = nat num_devices - 1
               then n div nat num_devices + n mod nat num_devices
               else n div nat num_devices)}"
    using h by (intro device_rows_eq [OF d1 d2 n64]) auto
  show "device_rows n num_devices i \<inter> device_rows n num_devices j = {}"
  proof (cases "i < j")
    case True
    then have "nat i < nat j" "nat j < nat num_devices" using h by auto
    then show ?thesis unfolding ei ej by (rule chunks_disjoint_nat)
  next
    case False
    then have "nat j < nat i" "nat i < nat num_devices" using h by auto
    then have "device_rows n num_devices j \<inter> device_rows n num_devices i = {}"
      unfolding ei ej by (rule chunks_disjoint_nat)
    then show ?thesis by (simp only: Int_commute)
  qed
qed

theorem partition_chunks_witness:
  "start_pos_idx 7 3 2 = 4 \<and> num_search_items_me 7 3 2 = 3 \<and> num_search_items_me 7 3 1 = 2 \<and>
   (\<Union>i\<in>{0..<3}. device_rows 7 3 i) = {0..<7} \<and>
   device_rows 7 3 1 \<inter> device_rows 7 3 2 = {}"
proof -
  have h: "(1::int) \<le> 3" "(3::int) < 2 ^ 31" "int 7 < 2 ^ 64" by simp_all
  note t = partition_chunks [OF h]
  from t have a: "start_pos_idx 7 3 2 = nat 2 * (7 div nat 3)"
    and b: "num_search_items_me 7 3 2 = (if (2::int) = 3 - 1 then 7 div nat 3 + 7 mod nat 3 else 7 div nat 3)"
    by simp_all
  from t have c: "num_search_items_me 7 3 1 = (if (1::int) = 3 - 1 then 7 div nat 3 + 7 mod nat 3 else 7 div nat 3)"
    by simp
  from t have d: "(\<Union>i\<in>{0..<3}. device_rows 7 3 i) = {0..<7}" by blast
  from t have e: "device_rows 7 3 1 \<inter> device_rows 7 3 2 = {}" by simp
  show ?thesis using a b c d e by simp
qed

section \<open>What a transform that returns has written, and what can make it raise\<close>

lemma transform_range_Inr:
  assumes "transform_range i c g buf = Inr res"
  shows "length res = length buf \<and>
         (\<forall>j. i \<le> j \<and> j < i + c \<longrightarrow> j < length buf \<and> g j = Inr (res ! j)) \<and>
         (\<forall>j. j < i \<or> i + c \<le> j \<longrightarrow> res ! j = buf ! j)"
  using assms
proof (induction c arbitrary: i buf)
  case 0
  then show ?case by auto
next
  case (Suc c)
  from Suc.prems obtain y where gi: "g i = Inr y" and il: "i < length buf"
    and r: "transform_range (Suc i) c g (buf[i := y]) = Inr res"
    by (auto split: sum.splits if_splits)
  from Suc.IH [OF r] have l: "length res = length buf"
    and a: "\<forall>j. Suc i \<le> j \<and> j < Suc i + c \<longrightarrow> j < length buf \<and> g j = Inr (res ! j)"
    and b: "\<forall>j. j < Suc i \<or> Suc i + c \<le> j \<longrightarrow> res ! j = (buf[i := y]) ! j"
    by simp_all
  have ri: "res ! i = y" using b il by simp
  have a': "\<forall>j. i \<le> j \<and> j < i + Suc c \<longrightarrow> j < length buf \<and> g j = Inr (res ! j)"
  proof (intro allI impI)
    fix j assume h: "i \<le> j \<and> j < i + Suc c"
    show "j < length buf \<and> g j = Inr (res ! j)"
    proof (cases "j = i")
      case True
      then show ?thesis using gi ri il by simp
    next
      case False
      then show ?thesis using a h by simp
    qed
  qed
  have b': "\<forall>j. j < i \<or> i + Suc c \<le> j \<longrightarrow> res ! j = buf ! j"
    using b by auto
  show ?case using l a' b' by simp
qed

lemma transform_range_Inl:
  assumes "transform_range i c g buf = Inl (e, res)"
  shows "e = MemoryFault \<or> (\<exists>j. g j = Inl e)"
  using assms
proof (induction c arbitrary: i buf)
  case 0
  then show ?case by simp
next
  case (Suc c)
  show ?case
  proof (cases "g i")
    case (Inl e')
    then show ?thesis using Suc.prems by auto
  next
    case (Inr y)
    show ?thesis
    proof (cases "i < length buf")
      case True
      then have "transform_range (Suc i) c g (buf[i := y]) = Inl (e, res)"
        using Suc.prems Inr by simp
      then show ?thesis by (rule Suc.IH)
    next
      case False
      then show ?thesis using Suc.prems Inr by simp
    qed
  qed
qed

lemma read_at_Inl: "read_at buf idx = Inl e \<Longrightarrow> e = MemoryFault"
  by (auto simp: read_at_def split: if_splits)

lemma read_at_Inr: "read_at buf idx = Inr v \<Longrightarrow> 0 \<le> idx \<and> nat idx < length buf \<and> v = buf ! nat idx"
  by (auto simp: read_at_def split: if_splits)

lemma write_range_Inl: "write_range buf off xs = Inl e \<Longrightarrow> e = MemoryFault"
  by (auto simp: write_range_def split: if_splits)

lemma narrow_index_Inl: "narrow_index w xs i = Inl e \<Longrightarrow> e = MemoryFault"
  by (auto simp: narrow_index_def dest: read_at_Inl split: sum.splits)

lemma narrow_indices_Inl: "narrow_indices w xs inds = Inl (e, res) \<Longrightarrow> e = MemoryFault"
  unfolding narrow_indices_def thrust_transform_def
  by (drule transform_range_Inl) (auto dest: narrow_index_Inl)

section \<open>Narrowing the indices of the search\<close>

lemma narrow_indices_Inr:
  assumes "narrow_indices w int64_indices inds = Inr res"
  shows "length res = length inds \<and>
         (\<forall>j<length int64_indices. res ! j = to_signed w (int64_indices ! j))"
proof -
  from assms have t: "transform_range 0 (length int64_indices) (narrow_index w int64_indices) inds
                      = Inr res"
    by (simp add: narrow_indices_def thrust_transform_def)
  note r = transform_range_Inr [OF t]
  have "\<forall>j<length int64_indices. res ! j = to_signed w (int64_indices ! j)"
  proof (intro allI impI)
    fix j assume j: "j < length int64_indices"
    then have "narrow_index w int64_indices j = Inr (res ! j)" using r by simp
    then show "res ! j = to_signed w (int64_indices ! j)"
      using j by (simp add: narrow_index_def read_at_def)
  qed
  then show ?thesis using r by simp
qed

lemma narrow_indices_total:
  assumes "length int64_indices \<le> length inds"
  shows "\<exists>res. narrow_indices w int64_indices inds = Inr res"
proof -
  have g: "\<forall>j. 0 \<le> j \<and> j < 0 + length int64_indices \<longrightarrow>
             narrow_index w int64_indices j = Inr (to_signed w (int64_indices ! j))"
    by (simp add: narrow_index_def read_at_def)
  have l: "0 + length int64_indices \<le> length inds" using assms by simp
  from transform_range_total [OF l g] show ?thesis
    unfolding narrow_indices_def thrust_transform_def by blast
qed

text \<open>
  C8. The conversion of the indices of the search from 64 bits to \<open>value_idx\<close>, done
  after the search, returns when \<open>inds\<close> has room for them, and keeps every index
  that \<open>value_idx\<close> can represent: the narrowed index is the index the search returned.
  In \<open>compute_knn\<close> this holds of every index the search primitive has returned.
\<close>

theorem narrowing_is_lossless:
  "(length int64_indices \<le> length inds \<longrightarrow>
      (\<exists>res. narrow_indices w int64_indices inds = Inr res \<and> length res = length inds \<and>
         (\<forall>j<length int64_indices.
            - (2 ^ (w - 1)) \<le> int64_indices ! j \<and> int64_indices ! j < 2 ^ (w - 1) \<longrightarrow>
            res ! j = int64_indices ! j))) \<and>
   (compute_knn rt lib X inds dists m n search_items n_search_items k metric = Inr (inds', dists')
      \<longrightarrow>
      (\<forall>j<length (fst (brute_force_knn lib [X] [to_signed 32 (int m)] n search_items
                          n_search_items k True True metric)).
         - (2 ^ (idx_bits rt - 1))
             \<le> fst (brute_force_knn lib [X] [to_signed 32 (int m)] n search_items
                       n_search_items k True True metric) ! j \<and>
         fst (brute_force_knn lib [X] [to_signed 32 (int m)] n search_items
                n_search_items k True True metric) ! j < 2 ^ (idx_bits rt - 1) \<longrightarrow>
         inds' ! j = fst (brute_force_knn lib [X] [to_signed 32 (int m)] n search_items
                            n_search_items k True True metric) ! j))"
proof (intro conjI impI)
  assume l: "length int64_indices \<le> length inds"
  from narrow_indices_total [OF l] obtain res where
    r: "narrow_indices w int64_indices inds = Inr res" by blast
  note p = narrow_indices_Inr [OF r]
  have "\<forall>j<length int64_indices.
            - (2 ^ (w - 1)) \<le> int64_indices ! j \<and> int64_indices ! j < 2 ^ (w - 1) \<longrightarrow>
            res ! j = int64_indices ! j"
    using p by (simp add: to_signed_id)
  then show "\<exists>res. narrow_indices w int64_indices inds = Inr res \<and> length res = length inds \<and>
         (\<forall>j<length int64_indices.
            - (2 ^ (w - 1)) \<le> int64_indices ! j \<and> int64_indices ! j < 2 ^ (w - 1) \<longrightarrow>
            res ! j = int64_indices ! j)"
    using r p by blast
next
  let ?res = "brute_force_knn lib [X] [to_signed 32 (int m)] n search_items
                          n_search_items k True True metric"
  let ?count = "size_t_of (to_size_t k * n_search_items)"
  assume c: "compute_knn rt lib X inds dists m n search_items n_search_items k metric
             = Inr (inds', dists')"
  then obtain int64_indices where
    w: "write_range (replicate ?count (junk_idx rt)) 0 (fst ?res) = Inr int64_indices"
    and nr: "narrow_indices (idx_bits rt) int64_indices inds = Inr inds'"
    by (auto simp: compute_knn_def Let_def split: if_splits prod.splits sum.splits)
  from w have i64: "int64_indices = fst ?res @ drop (length (fst ?res)) (replicate ?count (junk_idx rt))"
    and fit: "length (fst ?res) \<le> ?count"
    by (auto simp: write_range_def split: if_splits)
  have len: "length (fst ?res) \<le> length int64_indices"
    by (subst i64) simp
  note p = narrow_indices_Inr [OF nr]
  show "\<forall>j<length (fst ?res).
         - (2 ^ (idx_bits rt - 1)) \<le> fst ?res ! j \<and> fst ?res ! j < 2 ^ (idx_bits rt - 1) \<longrightarrow>
         inds' ! j = fst ?res ! j"
  proof (intro allI impI)
    fix j assume j: "j < length (fst ?res)"
      and rg: "- (2 ^ (idx_bits rt - 1)) \<le> fst ?res ! j \<and> fst ?res ! j < 2 ^ (idx_bits rt - 1)"
    have e: "int64_indices ! j = fst ?res ! j"
      by (subst i64) (simp add: nth_append j)
    have "inds' ! j = to_signed (idx_bits rt) (int64_indices ! j)"
      using p j len by simp
    then show "inds' ! j = fst ?res ! j"
      using rg by (simp add: e to_signed_id)
  qed
qed


theorem narrowing_is_lossless_witness:
  "length [5, 4294967301 :: int] \<le> length (replicate 6 (0::int)) \<and>
   (\<exists>res. narrow_indices 32 [5, 4294967301] (replicate 6 0) = Inr res \<and> res ! 0 = 5) \<and>
   compute_knn example_runtime example_library 0 (replicate 6 0) (replicate 6 0) 3 2 0 3 2
       L2SqrtExpanded = Inr ([0, 1, 1, 2, 2, 0], [0, 10, 1, 11, 2, 12]) \<and>
   fst (brute_force_knn example_library [0] [to_signed 32 (int 3)] 2 0 3 2 True True
          L2SqrtExpanded) ! 1 = 1"
proof -
  have ev: "compute_knn example_runtime example_library 0 (replicate 6 0) (replicate 6 0) 3 2 0 3 2
       L2SqrtExpanded = Inr ([0, 1, 1, 2, 2, 0], [0, 10, 1, 11, 2, 12])"
    by code_simp
  have r: "fst (brute_force_knn example_library [0] [to_signed 32 (int 3)] 2 0 3 2 True True
          L2SqrtExpanded) = [0, 1, 1, 2, 2, 0]"
    by code_simp
  have w: "idx_bits example_runtime = 32" by (simp add: example_runtime_def)
  note t = narrowing_is_lossless [where int64_indices = "[5, 4294967301]"
      and inds = "replicate 6 0" and w = 32 and rt = example_runtime and lib = example_library
      and X = 0 and dists = "replicate 6 0" and m = 3 and n = 2 and search_items = 0
      and n_search_items = 3 and k = 2 and metric = L2SqrtExpanded
      and inds' = "[0, 1, 1, 2, 2, 0]" and dists' = "[0, 10, 1, 11, 2, 12]"]
  from t have "\<exists>res. narrow_indices 32 [5, 4294967301] (replicate 6 0) = Inr res \<and>
      length res = length (replicate 6 (0::int)) \<and>
      (\<forall>j<length [5, 4294967301 :: int].
          - (2 ^ (32 - 1)) \<le> [5, 4294967301 :: int] ! j \<and> [5, 4294967301 :: int] ! j < 2 ^ (32 - 1) \<longrightarrow>
          res ! j = [5, 4294967301 :: int] ! j)"
    by simp
  then obtain res where a: "narrow_indices 32 [5, 4294967301] (replicate 6 0) = Inr res"
    and b: "\<forall>j<length [5, 4294967301 :: int].
          - (2 ^ (32 - 1)) \<le> [5, 4294967301 :: int] ! j \<and> [5, 4294967301 :: int] ! j < 2 ^ (32 - 1) \<longrightarrow>
          res ! j = [5, 4294967301 :: int] ! j"
    by blast
  from b have "res ! 0 = 5" by simp
  with a have c: "\<exists>res. narrow_indices 32 [5, 4294967301] (replicate 6 0) = Inr res \<and> res ! 0 = 5"
    by blast
  from t ev have "\<forall>j<length (fst (brute_force_knn example_library [0] [to_signed 32 (int 3)] 2 0
                          3 2 True True L2SqrtExpanded)).
         - (2 ^ (idx_bits example_runtime - 1))
             \<le> fst (brute_force_knn example_library [0] [to_signed 32 (int 3)] 2 0 3 2 True True
                      L2SqrtExpanded) ! j \<and>
         fst (brute_force_knn example_library [0] [to_signed 32 (int 3)] 2 0 3 2 True True
                L2SqrtExpanded) ! j < 2 ^ (idx_bits example_runtime - 1) \<longrightarrow>
         [0, 1, 1, 2, 2, 0] ! j = fst (brute_force_knn example_library [0] [to_signed 32 (int 3)]
                            2 0 3 2 True True L2SqrtExpanded) ! j"
    by blast
  then have d: "fst (brute_force_knn example_library [0] [to_signed 32 (int 3)] 2 0 3 2 True True
          L2SqrtExpanded) ! 1 = 1"
    unfolding r w by simp
  show ?thesis using c ev d by simp
qed

section \<open>The pass over the edges from a point to itself\<close>

lemma self_loop_weight_Inr:
  assumes "self_loop_weight lib g e = Inr v"
  shows "v = (if rows g ! e = cols g ! e then value_max lib else vals g ! e)"
  using assms unfolding self_loop_weight_def
  by (auto split: sum.splits dest!: read_at_Inr)

lemma self_loop_weight_Inl: "self_loop_weight lib g e = Inl x \<Longrightarrow> x = MemoryFault"
  unfolding self_loop_weight_def
  by (auto split: sum.splits dest: read_at_Inl)

lemma self_loops_get_max_distance_Inr:
  assumes "self_loops_get_max_distance lib s = Inr s'"
  shows "indptr s' = indptr s \<and> core_dists s' = core_dists s \<and> cerr s' = cerr s \<and>
         device s' = device s \<and> self_loops_forced (value_max lib) (out s) (out s')"
proof -
  from assms obtain vs where
    t: "transform_range 0 (nat (nnz (out s))) (self_loop_weight lib (out s)) (vals (out s)) = Inr vs"
    and s': "s' = s\<lparr>out := (out s)\<lparr>vals := vs\<rparr>\<rparr>"
    by (auto simp: self_loops_get_max_distance_def thrust_transform_def Let_def split: sum.splits)
  note r = transform_range_Inr [OF t]
  have "\<forall>e\<in>{0..<nat (nnz (out s))}.
          vs ! e = (if rows (out s) ! e = cols (out s) ! e then value_max lib else vals (out s) ! e)"
  proof
    fix e assume "e \<in> {0..<nat (nnz (out s))}"
    then have "self_loop_weight lib (out s) e = Inr (vs ! e)" using r by simp
    then show "vs ! e = (if rows (out s) ! e = cols (out s) ! e then value_max lib
                         else vals (out s) ! e)"
      by (rule self_loop_weight_Inr)
  qed
  then show ?thesis by (simp add: s' self_loops_forced_def)
qed

lemma self_loops_get_max_distance_Inl:
  assumes "self_loops_get_max_distance lib s = Inl (e, s')"
  shows "e = MemoryFault"
proof -
  from assms obtain vs where
    "transform_range 0 (nat (nnz (out s))) (self_loop_weight lib (out s)) (vals (out s))
     = Inl (e, vs)"
    by (auto simp: self_loops_get_max_distance_def thrust_transform_def Let_def split: sum.splits)
  then have "e = MemoryFault \<or> (\<exists>j. self_loop_weight lib (out s) j = Inl e)"
    by (rule transform_range_Inl)
  then show ?thesis by (auto dest: self_loop_weight_Inl)
qed

lemma example_graph:
  "mutual_reachability_graph example_runtime example_library 0 3 2 L2SqrtExpanded 2 1 example_state
   = Inr \<lparr>indptr = [0, 2, 4, 6], core_dists = [10, 11, 12],
          out = \<lparr>rows = [0, 0, 1, 1, 2, 2], cols = [0, 1, 1, 2, 2, 0],
                  vals = [999, 10, 999, 11, 999, 12], nnz = 6\<rparr>,
          cerr = [], device = 0\<rparr>"
  by code_simp

lemma example_graph_GF:
  "mutual_reachability_graph_GF example_runtime example_library 0 0 2 2 2 L2SqrtExpanded 5 1 gf_state
   = Inr \<lparr>indptr = [0, 64, 128], core_dists = [630, 631],
          out = \<lparr>rows = replicate 64 0 @ replicate 64 1,
                  cols = concat (replicate 32 [0, 1]) @ concat (replicate 32 [1, 0]),
                  vals = concat (map (\<lambda>j. [999, 20 * j + 10]) [0..31])
                         @ concat (map (\<lambda>j. [999, 20 * j + 11]) [0..31]),
                  nnz = 128\<rparr>,
          cerr = [], device = 0\<rparr>"
  by code_simp

text \<open>
  C2. When \<open>mutual_reachability_graph\<close> (or \<open>mutual_reachability_graph_GF\<close>) has
  returned, the graph is the one that stood after \<open>sorted_coo_to_csr\<close>, with the same
  rows and columns, where every edge \<open>e\<close> with \<open>rows[e] = cols[e]\<close> has the weight
  \<open>std::numeric_limits<value_t>::max()\<close> and every other edge the weight it had
  before the last pass.
\<close>

theorem self_loops_have_max_weight:
  "(mutual_reachability_graph rt lib X m n metric min_samples alpha s = Inr s' \<longrightarrow>
      (\<exists>pre. symmetrized_knn_graph rt lib X m n metric min_samples alpha s = Inr pre \<and>
         self_loops_forced (value_max lib) (out pre) (out s'))) \<and>
   (mutual_reachability_graph_GF rt lib X1 X2 m n1 n2 metric min_samples alpha s = Inr t' \<longrightarrow>
      (\<exists>pre. symmetrized_knn_graph_GF rt lib X1 X2 m n1 n2 metric min_samples alpha s = Inr pre \<and>
         self_loops_forced (value_max lib) (out pre) (out t')))"
proof (intro conjI impI)
  assume "mutual_reachability_graph rt lib X m n metric min_samples alpha s = Inr s'"
  then obtain pre where
    p: "symmetrized_knn_graph rt lib X m n metric min_samples alpha s = Inr pre"
    and q: "self_loops_get_max_distance lib pre = Inr s'"
    by (auto simp: mutual_reachability_graph_def split: sum.splits)
  from self_loops_get_max_distance_Inr [OF q] p
  show "\<exists>pre. symmetrized_knn_graph rt lib X m n metric min_samples alpha s = Inr pre \<and>
         self_loops_forced (value_max lib) (out pre) (out s')"
    by blast
next
  assume "mutual_reachability_graph_GF rt lib X1 X2 m n1 n2 metric min_samples alpha s = Inr t'"
  then obtain pre where
    p: "symmetrized_knn_graph_GF rt lib X1 X2 m n1 n2 metric min_samples alpha s = Inr pre"
    and q: "self_loops_get_max_distance lib pre = Inr t'"
    by (auto simp: mutual_reachability_graph_GF_def split: sum.splits)
  from self_loops_get_max_distance_Inr [OF q] p
  show "\<exists>pre. symmetrized_knn_graph_GF rt lib X1 X2 m n1 n2 metric min_samples alpha s = Inr pre \<and>
         self_loops_forced (value_max lib) (out pre) (out t')"
    by blast
qed

theorem self_loops_have_max_weight_witness:
  "(\<exists>s' pre.
      mutual_reachability_graph example_runtime example_library 0 3 2 L2SqrtExpanded 2 1
        example_state = Inr s' \<and>
      symmetrized_knn_graph example_runtime example_library 0 3 2 L2SqrtExpanded 2 1
        example_state = Inr pre \<and>
      self_loops_forced 999 (out pre) (out s') \<and>
      vals (out s') = [999, 10, 999, 11, 999, 12]) \<and>
   (\<exists>t' pre.
      mutual_reachability_graph_GF example_runtime example_library 0 0 2 2 2 L2SqrtExpanded 5 1
        gf_state = Inr t' \<and>
      symmetrized_knn_graph_GF example_runtime example_library 0 0 2 2 2 L2SqrtExpanded 5 1
        gf_state = Inr pre \<and>
      self_loops_forced 999 (out pre) (out t') \<and> nnz (out t') = 128)"
proof -
  have v: "value_max example_library = 999" by (simp add: example_library_def)
  note t = self_loops_have_max_weight [where rt = example_runtime and lib = example_library
      and X = 0 and m = 3 and n = 2 and metric = L2SqrtExpanded and min_samples = 2 and alpha = 1
      and s = example_state]
  note u = self_loops_have_max_weight [where rt = example_runtime and lib = example_library
      and ?X1.0 = 0 and ?X2.0 = 0 and m = 2 and ?n1.0 = 2 and ?n2.0 = 2
      and metric = L2SqrtExpanded and min_samples = 5 and alpha = 1 and s = gf_state]
  have a: "\<exists>s' pre.
      mutual_reachability_graph example_runtime example_library 0 3 2 L2SqrtExpanded 2 1
        example_state = Inr s' \<and>
      symmetrized_knn_graph example_runtime example_library 0 3 2 L2SqrtExpanded 2 1
        example_state = Inr pre \<and>
      self_loops_forced 999 (out pre) (out s') \<and>
      vals (out s') = [999, 10, 999, 11, 999, 12]"
    using t example_graph unfolding v by fastforce
  have b: "\<exists>t' pre.
      mutual_reachability_graph_GF example_runtime example_library 0 0 2 2 2 L2SqrtExpanded 5 1
        gf_state = Inr t' \<and>
      symmetrized_knn_graph_GF example_runtime example_library 0 0 2 2 2 L2SqrtExpanded 5 1
        gf_state = Inr pre \<and>
      self_loops_forced 999 (out pre) (out t') \<and> nnz (out t') = 128"
    using u example_graph_GF unfolding v by fastforce
  show ?thesis using a b by blast
qed

text \<open>
  C3. With a metric other than \<open>L2SqrtExpanded\<close>, \<open>mutual_reachability_graph\<close> and
  \<open>mutual_reachability_graph_GF\<close> raise the unsupported-metric error, whatever the
  machine and the library functions are (none of them is consulted), and \<open>indptr\<close>,
  \<open>core_dists\<close> and \<open>out\<close> are as the caller passed them.
\<close>

theorem unsupported_metric_fails_fast:
  "metric \<noteq> L2SqrtExpanded \<Longrightarrow>
     mutual_reachability_graph rt lib X m n metric min_samples alpha s
       = Inl (UnsupportedMetric, s) \<and>
     mutual_reachability_graph_GF rt lib X1 X2 m n1 n2 metric min_samples alpha s
       = Inl (UnsupportedMetric, s)"
  by (simp add: mutual_reachability_graph_def symmetrized_knn_graph_def
      mutual_reachability_graph_GF_def symmetrized_knn_graph_GF_def)

theorem unsupported_metric_fails_fast_witness:
  "L2Expanded \<noteq> L2SqrtExpanded \<and>
   mutual_reachability_graph example_runtime example_library 0 3 2 L2Expanded 2 1 example_state
     = Inl (UnsupportedMetric, example_state) \<and>
   mutual_reachability_graph_GF example_runtime example_library 0 0 2 2 2 L2Expanded 5 1 gf_state
     = Inl (UnsupportedMetric, gf_state)"
  using unsupported_metric_fails_fast [of L2Expanded example_runtime example_library 0 3 2 2 1
      example_state 0 0 2 2]
    unsupported_metric_fails_fast [of L2Expanded example_runtime example_library 0 2 2 5 1
      gf_state 0 0 2 2]
  by simp

section \<open>The errors a graph construction can raise\<close>

lemma compute_knn_Inl:
  assumes "compute_knn rt lib X inds dists m n search_items n_search_items k metric = Inl (e, st)"
  shows "e = OutOfMemory \<or> e = MemoryFault"
  using assms unfolding compute_knn_def Let_def
  by (auto split: if_splits prod.splits sum.splits
      dest: write_range_Inl narrow_indices_Inl)

lemma core_distances_Inl:
  assumes "core_distances w knn_dists min_samples n_neighbors n buf = Inl (e, res)"
  shows "(e = InvalidConfiguration \<and> n_neighbors < min_samples) \<or> e = MemoryFault"
proof (cases "n_neighbors < min_samples")
  case True
  then show ?thesis using assms by (simp add: core_distances_def)
next
  case False
  then have "transform_range 0 n
               (\<lambda>i. read_at knn_dists
                       (core_distance_index w (counting_iterator w i) n_neighbors min_samples))
               buf = Inl (e, res)"
    using assms by (simp add: core_distances_def thrust_transform_def)
  then have "e = MemoryFault \<or>
             (\<exists>j. read_at knn_dists
                     (core_distance_index w (counting_iterator w j) n_neighbors min_samples) = Inl e)"
    by (rule transform_range_Inl)
  then show ?thesis by (auto dest: read_at_Inl)
qed

lemma coo_rows_Inl:
  assumes "thrust_transform c (\<lambda>i. coo_row_of w min_samples (counting_iterator w i)) buf
           = Inl (e, res)"
  shows "e = MemoryFault \<or> e = DivisionByZero"
proof -
  from assms have "e = MemoryFault \<or>
      (\<exists>j. coo_row_of w min_samples (counting_iterator w j) = Inl e)"
    unfolding thrust_transform_def by (rule transform_range_Inl)
  then show ?thesis by (auto simp: coo_row_of_def split: if_splits)
qed

lemma symmetrized_knn_graph_Inl:
  assumes "symmetrized_knn_graph rt lib X m n metric min_samples alpha s = Inl (e, st)"
  shows "e \<noteq> InvalidConfiguration"
proof (cases "metric \<noteq> L2SqrtExpanded")
  case True
  then show ?thesis using assms by (simp add: symmetrized_knn_graph_def)
next
  case metric: False
  let ?count = "size_t_of (to_size_t min_samples * m)"
  show ?thesis
  proof (cases "can_alloc rt ?count")
    case False
    then show ?thesis using assms metric by (simp add: symmetrized_knn_graph_def Let_def)
  next
    case alloc: True
    show ?thesis
    proof (cases "compute_knn rt lib X (replicate ?count (junk_idx rt))
                     (replicate ?count (junk rt)) m n X m min_samples metric")
      case (Inl a)
      then obtain e' st' where a: "a = (e', st')" by (cases a)
      have "e' = OutOfMemory \<or> e' = MemoryFault" using Inl a by (auto dest: compute_knn_Inl)
      moreover have "e = e'"
        using assms metric alloc Inl a by (simp add: symmetrized_knn_graph_def Let_def)
      ultimately show ?thesis by auto
    next
      case (Inr b)
      then obtain inds dists where b: "b = (inds, dists)" by (cases b)
      show ?thesis
      proof (cases "core_distances (idx_bits rt) dists min_samples min_samples m (core_dists s)")
        case (Inl c)
        then obtain e' cd where c: "c = (e', cd)" by (cases c)
        have "e' = MemoryFault" using Inl c by (auto dest: core_distances_Inl)
        moreover have "e = e'"
          using assms metric alloc Inr b Inl c by (simp add: symmetrized_knn_graph_def Let_def)
        ultimately show ?thesis by auto
      next
        case cd: (Inr cd)
        show ?thesis
        proof (cases "thrust_transform (size_t_of (m * to_size_t min_samples))
                             (\<lambda>i. coo_row_of (idx_bits rt) min_samples
                                     (counting_iterator (idx_bits rt) i))
                             (replicate ?count (junk_idx rt))")
          case (Inl c)
          then obtain e' r where c: "c = (e', r)" by (cases c)
          have "e' = MemoryFault \<or> e' = DivisionByZero" using Inl c by (auto dest: coo_rows_Inl)
          moreover have "e = e'"
            using assms metric alloc Inr b cd Inl c
            by (simp add: symmetrized_knn_graph_def Let_def split: prod.splits)
          ultimately show ?thesis by auto
        next
          case (Inr coo_rows)
          then show ?thesis
            using assms metric alloc \<open>compute_knn _ _ _ _ _ _ _ _ _ _ _ = Inr b\<close> b cd
            by (simp add: symmetrized_knn_graph_def Let_def split: prod.splits)
        qed
      qed
    qed
  qed
qed

text \<open>
  C10. \<open>mutual_reachability_graph\<close> calls \<open>core_distances\<close> with the neighbourhood
  size equal to \<open>min_samples\<close>, for which the check of \<open>core_distances\<close> cannot
  fail; whatever its arguments, the machine and the library functions are,
  \<open>mutual_reachability_graph\<close> does not raise the invalid-configuration error.
\<close>

theorem invalid_configuration_unreachable:
  "core_distances w knn_dists min_samples min_samples n0 buf \<noteq> Inl (InvalidConfiguration, res) \<and>
   mutual_reachability_graph rt lib X m n metric min_samples alpha s
     \<noteq> Inl (InvalidConfiguration, s')"
proof
  show "core_distances w knn_dists min_samples min_samples n0 buf \<noteq> Inl (InvalidConfiguration, res)"
    by (auto dest: core_distances_Inl)
  show "mutual_reachability_graph rt lib X m n metric min_samples alpha s
          \<noteq> Inl (InvalidConfiguration, s')"
  proof
    assume a: "mutual_reachability_graph rt lib X m n metric min_samples alpha s
               = Inl (InvalidConfiguration, s')"
    show False
    proof (cases "symmetrized_knn_graph rt lib X m n metric min_samples alpha s")
      case (Inl c)
      then have "symmetrized_knn_graph rt lib X m n metric min_samples alpha s
                 = Inl (InvalidConfiguration, s')"
        using a by (simp add: mutual_reachability_graph_def)
      then show False by (auto dest: symmetrized_knn_graph_Inl)
    next
      case (Inr pre)
      then have "self_loops_get_max_distance lib pre = Inl (InvalidConfiguration, s')"
        using a by (simp add: mutual_reachability_graph_def)
      then show False by (auto dest: self_loops_get_max_distance_Inl)
    qed
  qed
qed

section \<open>The stages of the graph of two point sets\<close>

lemma symmetrized_knn_graph_GF_Inr:
  assumes "symmetrized_knn_graph_GF rt lib X1 X2 m n1 n2 metric min_samples alpha s = Inr pre"
  shows "\<exists>inds dists s1 coo_rows.
           compute_knn_GF rt lib X1 X2
             (replicate (size_t_of (to_size_t 64 * m)) (junk_idx rt))
             (replicate (size_t_of (to_size_t 64 * m)) (junk rt))
             m n1 n2 X1 X2 m 64 metric s = Inr (inds, dists, s1) \<and>
           core_distances (idx_bits rt) dists 64 64 m (core_dists s1) = Inr (core_dists pre) \<and>
           thrust_transform (size_t_of (m * to_size_t 64))
             (\<lambda>i. coo_row_of (idx_bits rt) 64 (counting_iterator (idx_bits rt) i))
             (replicate (size_t_of (to_size_t 64 * m)) (junk_idx rt)) = Inr coo_rows \<and>
           out pre = symmetrize lib coo_rows inds dists m m (size_t_of (to_size_t 64 * m)) (out s1)"
  using assms unfolding symmetrized_knn_graph_GF_def Let_def
  by (auto split: if_splits sum.splits prod.splits)


section \<open>The library functions the graph of two point sets depends on\<close>

lemma search_device_cong:
  assumes "\<And>i1 i2 sz a b q1 q2 nq r1 r2 mt.
             brute_force_knn_GF lib' i1 i2 sz a b q1 q2 nq k r1 r2 mt
             = brute_force_knn_GF lib i1 i2 sz a b q1 q2 nq k r1 r2 mt"
  shows "search_device rt lib' sizes n1 n2 n_search_items num_devices sentinel_device k metric d st
         = search_device rt lib sizes n1 n2 n_search_items num_devices sentinel_device k metric d st"
  unfolding search_device_def by (simp only: assms)

lemma search_devices_cong:
  assumes "\<And>i1 i2 sz a b q1 q2 nq r1 r2 mt.
             brute_force_knn_GF lib' i1 i2 sz a b q1 q2 nq k r1 r2 mt
             = brute_force_knn_GF lib i1 i2 sz a b q1 q2 nq k r1 r2 mt"
  shows "search_devices rt lib' sizes n1 n2 n_search_items num_devices sentinel_device k metric ds st
         = search_devices rt lib sizes n1 n2 n_search_items num_devices sentinel_device k metric ds st"
proof (induction ds arbitrary: st)
  case Nil
  show ?case by simp
next
  case (Cons d ds)
  show ?case
    by (simp add: search_device_cong [of lib' k lib, OF assms] Cons.IH split: sum.splits)
qed

lemma compute_knn_GF_cong:
  assumes "\<And>i1 i2 sz a b q1 q2 nq r1 r2 mt.
             brute_force_knn_GF lib' i1 i2 sz a b q1 q2 nq k r1 r2 mt
             = brute_force_knn_GF lib i1 i2 sz a b q1 q2 nq k r1 r2 mt"
  shows "compute_knn_GF rt lib' X1 X2 inds dists m n1 n2 search_items1 search_items2
           n_search_items k metric s
         = compute_knn_GF rt lib X1 X2 inds dists m n1 n2 search_items1 search_items2
             n_search_items k metric s"
  unfolding compute_knn_GF_def by (simp only: search_devices_cong [of lib' k lib, OF assms])

lemma self_loops_get_max_distance_cong:
  assumes "value_max lib' = value_max lib"
  shows "self_loops_get_max_distance lib' s = self_loops_get_max_distance lib s"
proof -
  have "self_loop_weight lib' (out s) = self_loop_weight lib (out s)"
    by (rule ext) (simp add: self_loop_weight_def assms split: sum.splits)
  then show ?thesis by (simp add: self_loops_get_max_distance_def)
qed

lemma mutual_reachability_graph_GF_cong:
  assumes k: "\<And>i1 i2 sz a b q1 q2 nq r1 r2 mt.
             brute_force_knn_GF lib' i1 i2 sz a b q1 q2 nq 64 r1 r2 mt
             = brute_force_knn_GF lib i1 i2 sz a b q1 q2 nq 64 r1 r2 mt"
    and sy: "symmetrize lib' = symmetrize lib"
    and cs: "sorted_coo_to_csr lib' = sorted_coo_to_csr lib"
    and vm: "value_max lib' = value_max lib"
  shows "mutual_reachability_graph_GF rt lib' X1 X2 m n1 n2 metric min_samples alpha s
         = mutual_reachability_graph_GF rt lib X1 X2 m n1 n2 metric min_samples' alpha' s"
proof -
  have "symmetrized_knn_graph_GF rt lib' X1 X2 m n1 n2 metric min_samples alpha s
        = symmetrized_knn_graph_GF rt lib X1 X2 m n1 n2 metric min_samples' alpha' s"
    unfolding symmetrized_knn_graph_GF_def Let_def
    by (simp only: compute_knn_GF_cong [of lib' 64 lib, OF k] sy cs
        cong: sum.case_cong prod.case_cong if_cong)
  then show ?thesis
    unfolding mutual_reachability_graph_GF_def
    by (simp only: self_loops_get_max_distance_cong [OF vm] cong: sum.case_cong)
qed


text \<open>
  C7. \<open>mutual_reachability_graph_GF\<close> does not depend on its argument \<open>min_samples\<close>.
  When it returns, its search was \<open>compute_knn_GF\<close> with the neighbourhood size 64 on
  arrays of \<open>64 * m\<close> entries, and the core distances it returns are those of
  \<open>core_distances\<close> with \<open>min_samples = 64\<close> and \<open>n_neighbors = 64\<close> on the distances
  of that search. It consults the search primitive at the neighbourhood size 64 only:
  a primitive that agrees with it there gives the same result.
\<close>

theorem GF_neighbourhood_is_64:
  "mutual_reachability_graph_GF rt lib X1 X2 m n1 n2 metric min_samples alpha s
     = mutual_reachability_graph_GF rt lib X1 X2 m n1 n2 metric min_samples' alpha s \<and>
   (mutual_reachability_graph_GF rt lib X1 X2 m n1 n2 metric min_samples alpha s = Inr s' \<longrightarrow>
      (\<exists>inds dists s1.
         compute_knn_GF rt lib X1 X2
           (replicate (size_t_of (to_size_t 64 * m)) (junk_idx rt))
           (replicate (size_t_of (to_size_t 64 * m)) (junk rt))
           m n1 n2 X1 X2 m 64 metric s = Inr (inds, dists, s1) \<and>
         core_distances (idx_bits rt) dists 64 64 m (core_dists s1) = Inr (core_dists s'))) \<and>
   ((\<forall>i1 i2 sz a b q1 q2 nq r1 r2 mt.
        f i1 i2 sz a b q1 q2 nq 64 r1 r2 mt
        = brute_force_knn_GF lib i1 i2 sz a b q1 q2 nq 64 r1 r2 mt) \<longrightarrow>
      mutual_reachability_graph_GF rt (lib\<lparr>brute_force_knn_GF := f\<rparr>) X1 X2 m n1 n2 metric
        min_samples alpha s
      = mutual_reachability_graph_GF rt lib X1 X2 m n1 n2 metric min_samples alpha s)"
proof (intro conjI impI)
  show "mutual_reachability_graph_GF rt lib X1 X2 m n1 n2 metric min_samples alpha s
     = mutual_reachability_graph_GF rt lib X1 X2 m n1 n2 metric min_samples' alpha s"
    by (rule mutual_reachability_graph_GF_cong) (rule refl)+
next
  assume "mutual_reachability_graph_GF rt lib X1 X2 m n1 n2 metric min_samples alpha s = Inr s'"
  then obtain pre where
    p: "symmetrized_knn_graph_GF rt lib X1 X2 m n1 n2 metric min_samples alpha s = Inr pre"
    and q: "self_loops_get_max_distance lib pre = Inr s'"
    by (auto simp: mutual_reachability_graph_GF_def split: sum.splits)
  have "core_dists s' = core_dists pre"
    using self_loops_get_max_distance_Inr [OF q] by simp
  then show "\<exists>inds dists s1.
         compute_knn_GF rt lib X1 X2
           (replicate (size_t_of (to_size_t 64 * m)) (junk_idx rt))
           (replicate (size_t_of (to_size_t 64 * m)) (junk rt))
           m n1 n2 X1 X2 m 64 metric s = Inr (inds, dists, s1) \<and>
         core_distances (idx_bits rt) dists 64 64 m (core_dists s1) = Inr (core_dists s')"
    using symmetrized_knn_graph_GF_Inr [OF p] by auto
next
  assume a: "\<forall>i1 i2 sz a b q1 q2 nq r1 r2 mt.
        f i1 i2 sz a b q1 q2 nq 64 r1 r2 mt
        = brute_force_knn_GF lib i1 i2 sz a b q1 q2 nq 64 r1 r2 mt"
  show "mutual_reachability_graph_GF rt (lib\<lparr>brute_force_knn_GF := f\<rparr>) X1 X2 m n1 n2 metric
        min_samples alpha s
      = mutual_reachability_graph_GF rt lib X1 X2 m n1 n2 metric min_samples alpha s"
    by (rule mutual_reachability_graph_GF_cong) (simp_all add: a)
qed

theorem GF_neighbourhood_is_64_witness:
  "(\<exists>inds dists s1.
      compute_knn_GF example_runtime example_library 0 0
        (replicate (size_t_of (to_size_t 64 * 2)) (junk_idx example_runtime))
        (replicate (size_t_of (to_size_t 64 * 2)) (junk example_runtime))
        2 2 2 0 0 2 64 L2SqrtExpanded gf_state = Inr (inds, dists, s1) \<and>
      core_distances (idx_bits example_runtime) dists 64 64 2 (core_dists s1)
        = Inr [630, 631]) \<and>
   mutual_reachability_graph_GF example_runtime
       (example_library\<lparr>brute_force_knn_GF :=
          (\<lambda>i1 i2 sz a b q1 q2 nq k r1 r2 mt.
             if k = 64 then brute_force_knn_GF example_library i1 i2 sz a b q1 q2 nq k r1 r2 mt
             else ([], []))\<rparr>)
       0 0 2 2 2 L2SqrtExpanded 5 1 gf_state = Inr gf_result"
proof -
  have ev: "mutual_reachability_graph_GF example_runtime example_library 0 0 2 2 2 L2SqrtExpanded
              5 1 gf_state = Inr gf_result"
    using example_graph_GF by (simp add: gf_result_def)
  have cd: "core_dists gf_result = [630, 631]" by (simp add: gf_result_def)
  note t = GF_neighbourhood_is_64 [where rt = example_runtime and lib = example_library
      and ?X1.0 = 0 and ?X2.0 = 0 and m = 2 and ?n1.0 = 2 and ?n2.0 = 2
      and metric = L2SqrtExpanded and min_samples = 5 and alpha = 1 and s = gf_state
      and s' = gf_result
      and f = "\<lambda>i1 i2 sz a b q1 q2 nq k r1 r2 mt.
             if k = 64 then brute_force_knn_GF example_library i1 i2 sz a b q1 q2 nq k r1 r2 mt
             else ([], [])"]
  from t ev have a: "\<exists>inds dists s1.
      compute_knn_GF example_runtime example_library 0 0
        (replicate (size_t_of (to_size_t 64 * 2)) (junk_idx example_runtime))
        (replicate (size_t_of (to_size_t 64 * 2)) (junk example_runtime))
        2 2 2 0 0 2 64 L2SqrtExpanded gf_state = Inr (inds, dists, s1) \<and>
      core_distances (idx_bits example_runtime) dists 64 64 2 (core_dists s1)
        = Inr (core_dists gf_result)"
    by blast
  from t have b: "mutual_reachability_graph_GF example_runtime
       (example_library\<lparr>brute_force_knn_GF :=
          (\<lambda>i1 i2 sz a b q1 q2 nq k r1 r2 mt.
             if k = 64 then brute_force_knn_GF example_library i1 i2 sz a b q1 q2 nq k r1 r2 mt
             else ([], []))\<rparr>)
       0 0 2 2 2 L2SqrtExpanded 5 1 gf_state
     = mutual_reachability_graph_GF example_runtime example_library 0 0 2 2 2 L2SqrtExpanded
              5 1 gf_state"
    by simp
  show ?thesis using a b unfolding cd ev by blast
qed

text \<open>
  C9. \<open>mutual_reachability_graph_GF\<close> does not depend on \<open>alpha\<close>, nor on the functions
  \<open>mutual_reachability_knn_l2\<close> and \<open>(value_t)1.0 / alpha\<close>, which it never calls. When
  it returns, its graph is the symmetrization of the edges of the search, with the
  distances as the search returned them, where the edges from a point to itself have
  got the maximal weight: every other weight is the one the symmetrization gave.
\<close>

theorem GF_keeps_raw_distances:
  "mutual_reachability_graph_GF rt lib X1 X2 m n1 n2 metric min_samples alpha s
     = mutual_reachability_graph_GF rt lib X1 X2 m n1 n2 metric min_samples alpha' s \<and>
   mutual_reachability_graph_GF rt (lib\<lparr>mutual_reachability_knn_l2 := f, one_over := g\<rparr>)
       X1 X2 m n1 n2 metric min_samples alpha s
     = mutual_reachability_graph_GF rt lib X1 X2 m n1 n2 metric min_samples alpha s \<and>
   (mutual_reachability_graph_GF rt lib X1 X2 m n1 n2 metric min_samples alpha s = Inr s' \<longrightarrow>
      (\<exists>inds dists s1 coo_rows.
         compute_knn_GF rt lib X1 X2
           (replicate (size_t_of (to_size_t 64 * m)) (junk_idx rt))
           (replicate (size_t_of (to_size_t 64 * m)) (junk rt))
           m n1 n2 X1 X2 m 64 metric s = Inr (inds, dists, s1) \<and>
         thrust_transform (size_t_of (m * to_size_t 64))
           (\<lambda>i. coo_row_of (idx_bits rt) 64 (counting_iterator (idx_bits rt) i))
           (replicate (size_t_of (to_size_t 64 * m)) (junk_idx rt)) = Inr coo_rows \<and>
         self_loops_forced (value_max lib)
           (symmetrize lib coo_rows inds dists m m (size_t_of (to_size_t 64 * m)) (out s1))
           (out s')))"
proof (intro conjI impI)
  show "mutual_reachability_graph_GF rt lib X1 X2 m n1 n2 metric min_samples alpha s
     = mutual_reachability_graph_GF rt lib X1 X2 m n1 n2 metric min_samples alpha' s"
    by (rule mutual_reachability_graph_GF_cong) (rule refl)+
next
  show "mutual_reachability_graph_GF rt (lib\<lparr>mutual_reachability_knn_l2 := f, one_over := g\<rparr>)
       X1 X2 m n1 n2 metric min_samples alpha s
     = mutual_reachability_graph_GF rt lib X1 X2 m n1 n2 metric min_samples alpha s"
    by (rule mutual_reachability_graph_GF_cong) simp_all
next
  assume "mutual_reachability_graph_GF rt lib X1 X2 m n1 n2 metric min_samples alpha s = Inr s'"
  then obtain pre where
    p: "symmetrized_knn_graph_GF rt lib X1 X2 m n1 n2 metric min_samples alpha s = Inr pre"
    and q: "self_loops_get_max_distance lib pre = Inr s'"
    by (auto simp: mutual_reachability_graph_GF_def split: sum.splits)
  have "self_loops_forced (value_max lib) (out pre) (out s')"
    using self_loops_get_max_distance_Inr [OF q] by simp
  then show "\<exists>inds dists s1 coo_rows.
         compute_knn_GF rt lib X1 X2
           (replicate (size_t_of (to_size_t 64 * m)) (junk_idx rt))
           (replicate (size_t_of (to_size_t 64 * m)) (junk rt))
           m n1 n2 X1 X2 m 64 metric s = Inr (inds, dists, s1) \<and>
         thrust_transform (size_t_of (m * to_size_t 64))
           (\<lambda>i. coo_row_of (idx_bits rt) 64 (counting_iterator (idx_bits rt) i))
           (replicate (size_t_of (to_size_t 64 * m)) (junk_idx rt)) = Inr coo_rows \<and>
         self_loops_forced (value_max lib)
           (symmetrize lib coo_rows inds dists m m (size_t_of (to_size_t 64 * m)) (out s1))
           (out s')"
    using symmetrized_knn_graph_GF_Inr [OF p] by auto
qed


theorem GF_keeps_raw_distances_witness:
  "\<exists>inds dists s1 coo_rows.
      compute_knn_GF example_runtime example_library 0 0
        (replicate (size_t_of (to_size_t 64 * 2)) (junk_idx example_runtime))
        (replicate (size_t_of (to_size_t 64 * 2)) (junk example_runtime))
        2 2 2 0 0 2 64 L2SqrtExpanded gf_state = Inr (inds, dists, s1) \<and>
      thrust_transform (size_t_of (2 * to_size_t 64))
        (\<lambda>i. coo_row_of (idx_bits example_runtime) 64
                (counting_iterator (idx_bits example_runtime) i))
        (replicate (size_t_of (to_size_t 64 * 2)) (junk_idx example_runtime)) = Inr coo_rows \<and>
      self_loops_forced (value_max example_library)
        (symmetrize example_library coo_rows inds dists 2 2 (size_t_of (to_size_t 64 * 2))
           (out s1))
        (out gf_result)"
proof -
  have ev: "mutual_reachability_graph_GF example_runtime example_library 0 0 2 2 2 L2SqrtExpanded
              5 1 gf_state = Inr gf_result"
    using example_graph_GF by (simp add: gf_result_def)
  note t = GF_keeps_raw_distances [where rt = example_runtime and lib = example_library
      and ?X1.0 = 0 and ?X2.0 = 0 and m = 2 and ?n1.0 = 2 and ?n2.0 = 2
      and metric = L2SqrtExpanded and min_samples = 5 and alpha = 1 and s = gf_state
      and s' = gf_result]
  from t ev show ?thesis by blast
qed

section \<open>Failures of the CUDA runtime in the search on several devices\<close>











lemma write_range_length:
  "write_range buf off xs = Inr res \<Longrightarrow> length res = length buf"
  by (auto simp: write_range_def split: if_splits)











end
